theory Spec2Isabelle
  imports Complex_Main "HOL-Library.AList"
begin

section \<open>Python values, exceptions and log records\<close>

text \<open>
  An exception is the name of its class and the text that \<open>str(e)\<close> gives. A raise is
  the left injection of a sum type, a normal return the right one. The texts of the
  exceptions that Python and numpy raise themselves are those of CPython 3.11.
\<close>

datatype pyexn = PyExn (exn_type: string) (exn_msg: string)

text \<open>
  The values a metadata mapping or a decoded JSON body can hold. A Python float is a
  \<open>real\<close>: the code below only copies floats and tests them against zero, it never
  computes with them. A \<open>dict\<close> with string keys is an association list in insertion
  order, looked up with \<open>map_of\<close> and written with \<open>AList.update\<close> (an existing key keeps
  its place, a new key goes to the end, as in Python).
\<close>

datatype pyval =
    PNone
  | PBool bool
  | PInt int
  | PFloat real
  | PStr string
  | PList "pyval list"
  | PDict "(string \<times> pyval) list"

type_synonym pydict = "(string \<times> pyval) list"

text \<open>
  \<open>langchain_core.documents.Document\<close>: the two fields the code sets. \<open>metadata\<close> is a
  plain \<open>dict\<close> there; \<open>'key\<close> is the type of its keys.
\<close>

record 'key Document =
  page_content :: string
  metadata :: "('key \<times> pyval) list"

text \<open>
  The records written by \<open>log.warning\<close> and \<open>log.error\<close>. The \<open>log.info\<close> and
  \<open>log.debug\<close> calls only report on values that are computed anyway and are left out.
\<close>

datatype log_record = LogWarning string | LogError string

text \<open>\<open>str(n)\<close> for an integer.\<close>

definition digit_char :: "nat \<Rightarrow> char" where
  "digit_char d = ''0123456789'' ! d"

fun str_nat :: "nat \<Rightarrow> string" where
  "str_nat n = (if n < 10 then [digit_char n] else str_nat (n div 10) @ [digit_char (n mod 10)])"

declare str_nat.simps [simp del]

definition str_int :: "int \<Rightarrow> string" where
  "str_int i = (if i < 0 then ''-'' @ str_nat (nat (- i)) else str_nat (nat i))"

section \<open>The bm25s library, as the adapter sees it\<close>

text \<open>
  bm25s and numpy are third-party packages: everything the adapter calls there is a
  parameter of the model. A two-dimensional numpy array is its number of columns
  (\<open>shape[1]\<close>) and the list of its rows.
\<close>

datatype 'a ndarray = NDArray (shape1: nat) (rows: "'a list list")

text \<open>\<open>a[r, c]\<close>: IndexError outside the array.\<close>

definition item :: "'a ndarray \<Rightarrow> nat \<Rightarrow> nat \<Rightarrow> pyexn + 'a" where
  "item a r c =
     (if \<not> r < length (rows a) then
        Inl (PyExn ''IndexError''
               (''index '' @ str_nat r @ '' is out of bounds for axis 0 with size ''
                  @ str_nat (length (rows a))))
      else if \<not> c < length (rows a ! r) then
        Inl (PyExn ''IndexError''
               (''index '' @ str_nat c @ '' is out of bounds for axis 1 with size ''
                  @ str_nat (length (rows a ! r))))
      else Inr (rows a ! r ! c))"

text \<open>
  The second component of what \<open>BM25.retrieve\<close> returns: a numpy array of floats, or
  some other object with a \<open>shape\<close>, for which \<open>isinstance(scores, np.ndarray)\<close> is
  false.
\<close>

datatype scores_obj = NdArray "real ndarray" | OtherObj

text \<open>\<open>bm25s.tokenize\<close> is called with the list of corpus texts and with one query string.\<close>

datatype tokenize_arg = Text string | Texts "string list"

text \<open>
  The functions of bm25s that the adapter calls. \<open>'tok\<close> is the type of tokenized
  text, \<open>'idx\<close> the state of a \<open>bm25s.BM25\<close> object. \<open>index\<close> and
  \<open>activate_numba_scorer\<close> change the object: they return the new state, and a call
  that raises leaves the object as it was. \<open>retrieve\<close> only reads the object.
\<close>

record ('tok, 'idx) bm25s =
  tokenize :: "tokenize_arg \<Rightarrow> pyexn + 'tok"
  BM25 :: "string \<Rightarrow> pyexn + 'idx"
  index :: "'idx \<Rightarrow> 'tok \<Rightarrow> pyexn + 'idx"
  activate_numba_scorer :: "'idx \<Rightarrow> pyexn + 'idx"
  retrieve :: "'idx \<Rightarrow> 'tok \<Rightarrow> string list \<Rightarrow> int \<Rightarrow> pyexn + (string ndarray \<times> scores_obj)"

section \<open>BM25SRetriever\<close>

record ('tok, 'idx) BM25SRetriever =
  texts :: "string list"
  metadatas :: "pydict list"
  k :: int
  corpus_tokens :: "'tok"
  retriever :: "'idx"

subsection \<open>\<open>__init__\<close>\<close>

text \<open>
  \<open>BM25S_AVAILABLE\<close> is the module's flag, set when the module is imported. The pydantic
  initialiser stores the three fields as they are given: it checks their types only,
  which the types of the model already fix. The result is the exception raised or the
  retriever built, together with the log records written.
\<close>

definition init ::
  "bool \<Rightarrow> ('tok, 'idx) bm25s \<Rightarrow> string list \<Rightarrow> pydict list \<Rightarrow> int
     \<Rightarrow> (pyexn + ('tok, 'idx) BM25SRetriever) \<times> log_record list" where
  "init BM25S_AVAILABLE b texts0 metadatas0 k0 =
     (if \<not> BM25S_AVAILABLE then
        (Inl (PyExn ''ImportError''
                ''bm25s package not found. Please install it with `pip install bm25s`.''), [])
      else
        (case tokenize b (Texts texts0) of
           Inl e \<Rightarrow> (Inl e, [])
         | Inr toks \<Rightarrow>
            (case BM25 b ''lucene'' of
               Inl e \<Rightarrow> (Inl e, [])
             | Inr obj \<Rightarrow>
                (case index b obj toks of
                   Inl e \<Rightarrow> (Inl e, [])
                 | Inr indexed \<Rightarrow>
                    (case activate_numba_scorer b indexed of
                       Inr accelerated \<Rightarrow>
                         (Inr \<lparr>texts = texts0, metadatas = metadatas0, k = k0,
                               corpus_tokens = toks, retriever = accelerated\<rparr>, [])
                     | Inl e \<Rightarrow>
                         (Inr \<lparr>texts = texts0, metadatas = metadatas0, k = k0,
                               corpus_tokens = toks, retriever = indexed\<rparr>,
                          [LogWarning (''BM25S: Could not activate Numba acceleration: ''
                                         @ exn_msg e)]))))))"

subsection \<open>\<open>_get_relevant_documents\<close>\<close>

text \<open>\<open>list.index\<close>: the first position of a value; \<open>None\<close> stands for ValueError.\<close>

fun list_index :: "'a list \<Rightarrow> 'a \<Rightarrow> nat option" where
  "list_index [] x = None"
| "list_index (y # ys) x = (if y = x then Some 0 else map_option Suc (list_index ys x))"

text \<open>
  The test \<open>isinstance(scores, np.ndarray) and i < len(scores[0])\<close> followed by
  \<open>float(scores[0, i])\<close>: \<open>Inr None\<close> when the test is false, \<open>Inr (Some s)\<close> when
  it is true, IndexError when the array has no row \<open>0\<close>.
\<close>

definition score_at :: "scores_obj \<Rightarrow> nat \<Rightarrow> pyexn + real option" where
  "score_at scores i =
     (case scores of
        OtherObj \<Rightarrow> Inr None
      | NdArray a \<Rightarrow>
         (case rows a of
            [] \<Rightarrow> Inl (PyExn ''IndexError'' ''index 0 is out of bounds for axis 0 with size 0'')
          | row0 # _ \<Rightarrow> if i < length row0 then Inr (Some (row0 ! i)) else Inr None))"

text \<open>
  One pass through the body of the \<open>for\<close> loop, at column \<open>i\<close>. The state is the
  retriever's list of metadata mappings, the documents collected and the log. \<open>metadata\<close>
  is the object stored in \<open>self.metadatas\<close> when the position is in range, so writing
  the score into it writes into the retriever; the empty mapping of the other branches
  is a new object. An exception other than the ValueError of \<open>list.index\<close> leaves
  the body (\<open>Inl\<close>, with the log as it is then); none of them comes after a write. A
  document holds the value of
  its mapping; lemma \<open>documents_agree_with_store\<close> shows that holding the stored object
  instead gives the same values.
\<close>

definition convert_result ::
  "string list \<Rightarrow> string ndarray \<Rightarrow> scores_obj \<Rightarrow> nat
     \<Rightarrow> pydict list \<times> string Document list \<times> log_record list
     \<Rightarrow> pyexn \<times> log_record list + pydict list \<times> string Document list \<times> log_record list" where
  "convert_result ts results scores i st =
     (case st of (ms, documents, lg) \<Rightarrow>
      (case item results 0 i of
         Inl e \<Rightarrow> Inl (e, lg)
       | Inr doc_text \<Rightarrow>
          (case list_index ts doc_text of
             Some doc_idx \<Rightarrow>
               (let md = (if doc_idx < length ms then ms ! doc_idx else []) in
                (case score_at scores i of
                   Inl e \<Rightarrow> Inl (e, lg)
                 | Inr None \<Rightarrow>
                     Inr (ms, documents @ [\<lparr>page_content = doc_text, metadata = md\<rparr>], lg)
                 | Inr (Some score_value) \<Rightarrow>
                     (if map_of md ''score'' = None then
                        (let md' = AList.update ''score'' (PFloat score_value) md;
                             ms' = (if doc_idx < length ms then ms[doc_idx := md'] else ms)
                         in Inr (ms', documents @ [\<lparr>page_content = doc_text, metadata = md'\<rparr>], lg))
                      else
                        Inr (ms, documents @ [\<lparr>page_content = doc_text, metadata = md\<rparr>], lg))))
           | None \<Rightarrow>
               (let lg' = lg @ [LogWarning (''BM25S: Document text not found in corpus: ''
                                             @ take 100 doc_text @ ''...'')] in
                (case score_at scores i of
                   Inl e \<Rightarrow> Inl (e, lg')
                 | Inr None \<Rightarrow>
                     Inr (ms, documents @ [\<lparr>page_content = doc_text, metadata = []\<rparr>], lg')
                 | Inr (Some score_value) \<Rightarrow>
                     Inr (ms, documents @ [\<lparr>page_content = doc_text,
                                            metadata = [(''score'', PFloat score_value)]\<rparr>], lg'))))))"

text \<open>
  The \<open>for\<close> loop over the columns \<open>is\<close>, inside the outer \<open>try\<close>: it stops at the
  first exception and hands it out with the state reached: the stored mappings and the
  documents before the pass that raised, and the log at the raise.
\<close>

fun convert_loop ::
  "string list \<Rightarrow> string ndarray \<Rightarrow> scores_obj \<Rightarrow> nat list
     \<Rightarrow> pydict list \<times> string Document list \<times> log_record list
     \<Rightarrow> (pydict list \<times> string Document list \<times> log_record list) \<times> pyexn option" where
  "convert_loop ts results scores [] st = (st, None)"
| "convert_loop ts results scores (i # is) (ms, documents, lg) =
     (case convert_result ts results scores i (ms, documents, lg) of
        Inl (e, lg') \<Rightarrow> ((ms, documents, lg'), Some e)
      | Inr st' \<Rightarrow> convert_loop ts results scores is st')"

text \<open>
  The method. Tokenizing the query and calling \<open>BM25.retrieve\<close> come before the
  \<open>try\<close>: what they raise leaves the method. The result is the exception raised or the
  list returned, the retriever after the call and the log records written.
\<close>

definition get_relevant_documents ::
  "('tok, 'idx) bm25s \<Rightarrow> ('tok, 'idx) BM25SRetriever \<Rightarrow> string
     \<Rightarrow> (pyexn + string Document list) \<times> ('tok, 'idx) BM25SRetriever \<times> log_record list" where
  "get_relevant_documents b self query =
     (case tokenize b (Text query) of
        Inl e \<Rightarrow> (Inl e, self, [])
      | Inr query_tokens \<Rightarrow>
         (case retrieve b (retriever self) query_tokens (texts self) (k self) of
            Inl e \<Rightarrow> (Inl e, self, [])
          | Inr (results, scores) \<Rightarrow>
             (case convert_loop (texts self) results scores [0..<shape1 results]
                     (metadatas self, [], []) of
                ((ms, documents, lg), None) \<Rightarrow>
                  (Inr documents, self\<lparr>metadatas := ms\<rparr>, lg)
              | ((ms, documents, lg), Some e) \<Rightarrow>
                  (Inr documents, self\<lparr>metadatas := ms\<rparr>,
                   lg @ [LogError (''BM25S: Error processing results: '' @ exn_msg e)]))))"

text \<open>
  The mapping that the loop body takes for a result text: the stored mapping at the first
  position of the text in the corpus, the empty mapping when the text is not in the
  corpus or the position has no stored mapping.
\<close>

definition stored_metadata :: "string list \<Rightarrow> pydict list \<Rightarrow> string \<Rightarrow> pydict" where
  "stored_metadata ts ms t =
     (case list_index ts t of
        Some doc_idx \<Rightarrow> if doc_idx < length ms then ms ! doc_idx else []
      | None \<Rightarrow> [])"

text \<open>A numpy array has rows of one length, its second dimension.\<close>

definition wf_ndarray :: "'a ndarray \<Rightarrow> bool" where
  "wf_ndarray a = list_all (\<lambda>r. length r = shape1 a) (rows a)"

subsection \<open>A small instance of the library\<close>

text \<open>
  An instance of the library for concrete runs: a text is its own token, indexing counts
  the texts, numba is not installed, and \<open>retrieve\<close> answers a query as \<open>f\<close> says.
\<close>

definition stub_bm25s ::
  "(string list \<Rightarrow> pyexn + (string ndarray \<times> scores_obj)) \<Rightarrow> (string list, nat) bm25s" where
  "stub_bm25s f =
     \<lparr>tokenize = (\<lambda>a. Inr (case a of Text s \<Rightarrow> [s] | Texts ss \<Rightarrow> ss)),
      BM25 = (\<lambda>m. Inr 0),
      index = (\<lambda>obj toks. Inr (length toks)),
      activate_numba_scorer = (\<lambda>obj. Inl (PyExn ''ImportError'' ''Numba is not installed'')),
      retrieve = (\<lambda>obj toks corpus kk. f toks)\<rparr>"

text \<open>An answer without any result: both arrays have one row and no column.\<close>

definition no_results :: "string list \<Rightarrow> pyexn + (string ndarray \<times> scores_obj)" where
  "no_results toks = Inr (NDArray 0 [[]], NdArray (NDArray 0 [[]]))"


text \<open>Answers of the library used in the concrete runs below.\<close>

definition one_doc_answer :: "string list \<Rightarrow> pyexn + (string ndarray \<times> scores_obj)" where
  "one_doc_answer toks =
     Inr (NDArray 1 [[''cat dog'']],
          NdArray (NDArray 1 [[if toks = [''cat''] then 1 / 2 else 1 / 4]]))"

definition two_docs_answer :: "string list \<Rightarrow> pyexn + (string ndarray \<times> scores_obj)" where
  "two_docs_answer toks =
     Inr (NDArray 2 [[''cat dog'', ''cat dog'']], NdArray (NDArray 2 [[1 / 2, 1 / 2]]))"

definition ranked_answer :: "string list \<Rightarrow> pyexn + (string ndarray \<times> scores_obj)" where
  "ranked_answer toks =
     Inr (NDArray 2 [[''the dog ran'', ''the cat sat'']], NdArray (NDArray 2 [[1 / 2, 1 / 4]]))"

definition repeated_answer :: "string list \<Rightarrow> pyexn + (string ndarray \<times> scores_obj)" where
  "repeated_answer toks =
     Inr (NDArray 2 [[''the dog ran'', ''the dog ran'']], NdArray (NDArray 2 [[1 / 2, 1 / 2]]))"

definition raising_answer :: "string list \<Rightarrow> pyexn + (string ndarray \<times> scores_obj)" where
  "raising_answer toks =
     Inl (PyExn ''ValueError'' ''k of 4 is larger than the number of available scores'')"

definition no_rows_answer :: "string list \<Rightarrow> pyexn + (string ndarray \<times> scores_obj)" where
  "no_rows_answer toks = Inr (NDArray 2 [], NdArray (NDArray 2 []))"

definition unknown_text_answer :: "string list \<Rightarrow> pyexn + (string ndarray \<times> scores_obj)" where
  "unknown_text_answer toks = Inr (NDArray 1 [[''a bird'']], NdArray (NDArray 1 []))"

subsection \<open>The retrieval of the specification\<close>

text \<open>
  Modelled from the spec: \<open>BM25.retrieve\<close> of the bm25s package, which is not under src/.
  Section 4.4 of the specification, steps 2 and 3: every document id in \<open>0..doc_count\<close>
  is scored, and the top \<open>k\<close> are selected by score descending, ties broken by ascending
  document id (\<open>sort_key\<close> is stable). The BM25 formula itself is floating-point
  arithmetic and stays a parameter, \<open>score\<close>.
\<close>

definition select_top_k :: "(nat \<Rightarrow> real) \<Rightarrow> nat \<Rightarrow> int \<Rightarrow> nat list" where
  "select_top_k score n kk = take (nat kk) (sort_key (\<lambda>d. - score d) [0..<n])"

text \<open>
  Modelled from the spec: what \<open>BM25.retrieve\<close> hands to the adapter for the selected
  ids, when it is called with \<open>corpus=self.texts\<close>: one row with the texts of the
  selected documents, and one row with their scores. \<open>scorer\<close> is the Scorer of
  section 4.3, \<open>score(query, document_id, index)\<close>.
\<close>

definition spec_retrieve ::
  "('tok \<Rightarrow> nat \<Rightarrow> 'idx \<Rightarrow> real)
     \<Rightarrow> 'idx \<Rightarrow> 'tok \<Rightarrow> string list \<Rightarrow> int \<Rightarrow> pyexn + (string ndarray \<times> scores_obj)" where
  "spec_retrieve scorer obj toks corpus kk =
     (let ids = select_top_k (\<lambda>d. scorer toks d obj) (length corpus) kk
      in Inr (NDArray (length ids) [map (\<lambda>d. corpus ! d) ids],
              NdArray (NDArray (length ids) [map (\<lambda>d. scorer toks d obj) ids])))"

text \<open>The small instance of the library, with the retrieval of the specification.\<close>

definition spec_bm25s :: "(string list \<Rightarrow> nat \<Rightarrow> nat \<Rightarrow> real) \<Rightarrow> (string list, nat) bm25s" where
  "spec_bm25s scorer = (stub_bm25s no_results)\<lparr>retrieve := spec_retrieve scorer\<rparr>"

section \<open>DoclingApiLoader\<close>

subsection \<open>Python operations on decoded JSON values\<close>

text \<open>\<open>type(v).__name__\<close>, as the texts of Python's TypeErrors show it, in quotes.\<close>

fun type_name :: "pyval \<Rightarrow> string" where
  "type_name PNone = ''NoneType''"
| "type_name (PBool b) = ''bool''"
| "type_name (PInt i) = ''int''"
| "type_name (PFloat x) = ''float''"
| "type_name (PStr s) = ''str''"
| "type_name (PList xs) = ''list''"
| "type_name (PDict kvs) = ''dict''"

definition quoted :: "string \<Rightarrow> string" where
  "quoted s = [CHR 0x27] @ s @ [CHR 0x27]"

text \<open>Truth value of an object, as \<open>not content\<close> and \<open>if response.text\<close> test it.\<close>

fun truthy :: "pyval \<Rightarrow> bool" where
  "truthy PNone = False"
| "truthy (PBool b) = b"
| "truthy (PInt i) = (i \<noteq> 0)"
| "truthy (PFloat x) = (x \<noteq> 0)"
| "truthy (PStr s) = (s \<noteq> [])"
| "truthy (PList xs) = (xs \<noteq> [])"
| "truthy (PDict kvs) = (kvs \<noteq> [])"

text \<open>\<open>xs in ys\<close> on strings: \<open>xs\<close> occurs in \<open>ys\<close> as a block.\<close>

fun is_substring :: "string \<Rightarrow> string \<Rightarrow> bool" where
  "is_substring xs [] = (xs = [])"
| "is_substring xs (y # ys) = (take (length xs) (y # ys) = xs \<or> is_substring xs ys)"

text \<open>
  \<open>key in obj\<close> for a string \<open>key\<close>: a key of a dict, an element of a list, a part of
  a string; TypeError on \<open>None\<close>, a bool or a number.
\<close>

fun py_contains :: "string \<Rightarrow> pyval \<Rightarrow> pyexn + bool" where
  "py_contains key (PDict kvs) = Inr (map_of kvs key \<noteq> None)"
| "py_contains key (PList xs) = Inr (PStr key \<in> set xs)"
| "py_contains key (PStr s) = Inr (is_substring key s)"
| "py_contains key v =
     Inl (PyExn ''TypeError''
            (''argument of type '' @ quoted (type_name v) @ '' is not iterable''))"

text \<open>\<open>obj[key]\<close> for a string \<open>key\<close>: defined on a dict that has the key only.\<close>

fun py_getitem :: "pyval \<Rightarrow> string \<Rightarrow> pyexn + pyval" where
  "py_getitem (PDict kvs) key =
     (case map_of kvs key of
        Some v \<Rightarrow> Inr v
      | None \<Rightarrow> Inl (PyExn ''KeyError'' (quoted key)))"
| "py_getitem (PList xs) key =
     Inl (PyExn ''TypeError'' ''list indices must be integers or slices, not str'')"
| "py_getitem (PStr s) key =
     Inl (PyExn ''TypeError'' (''string indices must be integers, not '' @ quoted ''str''))"
| "py_getitem v key =
     Inl (PyExn ''TypeError'' (quoted (type_name v) @ '' object is not subscriptable''))"

text \<open>\<open>d.get(key, default)\<close> on a dict.\<close>

definition dict_get :: "pydict \<Rightarrow> string \<Rightarrow> pyval \<Rightarrow> pyval" where
  "dict_get kvs key dflt = (case map_of kvs key of Some v \<Rightarrow> v | None \<Rightarrow> dflt)"

text \<open>
  \<open>content[:100]\<close>, which the \<open>log.debug\<close> call of line 101 evaluates: a string and a
  list can be sliced, nothing else.
\<close>

fun py_slice :: "pyval \<Rightarrow> pyexn + pyval" where
  "py_slice (PStr s) = Inr (PStr (take 100 s))"
| "py_slice (PList xs) = Inr (PList (take 100 xs))"
| "py_slice (PDict kvs) = Inl (PyExn ''TypeError'' (''unhashable type: '' @ quoted ''slice''))"
| "py_slice v =
     Inl (PyExn ''TypeError'' (quoted (type_name v) @ '' object is not subscriptable''))"

text \<open>
  The keys of the metadata of a document: strings, and the other hashable values that
  \<open>dict.update\<close> can bring in from a decoded JSON value. Python takes \<open>True\<close>, \<open>1\<close> and
  \<open>1.0\<close> (and \<open>False\<close>, \<open>0\<close> and \<open>0.0\<close>) for the same key.
\<close>

datatype pykey = KStr string | KNum real | KNone

fun key_of :: "pyval \<Rightarrow> pykey option" where
  "key_of (PStr s) = Some (KStr s)"
| "key_of (PInt i) = Some (KNum (of_int i))"
| "key_of (PFloat x) = Some (KNum x)"
| "key_of (PBool b) = Some (KNum (if b then 1 else 0))"
| "key_of PNone = Some KNone"
| "key_of v = None"

text \<open>
  An element of the sequence given to \<open>dict.update\<close>, seen as a sequence itself: the
  elements of a list, the characters of a string, the keys of a dict.
\<close>

fun seq_of :: "pyval \<Rightarrow> pyval list option" where
  "seq_of (PList xs) = Some xs"
| "seq_of (PStr s) = Some (map (\<lambda>c. PStr [c]) s)"
| "seq_of (PDict kvs) = Some (map (\<lambda>(key, v). PStr key) kvs)"
| "seq_of v = None"

text \<open>
  Element \<open>i\<close> of the sequence given to \<open>dict.update\<close>: it must be a sequence of length
  two, a key that can be hashed and a value.
\<close>

definition pair_of :: "nat \<Rightarrow> pyval \<Rightarrow> pyexn + (pykey \<times> pyval)" where
  "pair_of i x =
     (case seq_of x of
        None \<Rightarrow>
          Inl (PyExn ''TypeError''
                 (''cannot convert dictionary update sequence element #'' @ str_nat i
                    @ '' to a sequence''))
      | Some [k0, v] \<Rightarrow>
          (case key_of k0 of
             Some key \<Rightarrow> Inr (key, v)
           | None \<Rightarrow>
               Inl (PyExn ''TypeError'' (''unhashable type: '' @ quoted (type_name k0))))
      | Some ys \<Rightarrow>
          Inl (PyExn ''ValueError''
                 (''dictionary update sequence element #'' @ str_nat i @ '' has length ''
                    @ str_nat (length ys) @ ''; 2 is required'')))"

fun update_pairs ::
  "(pykey \<times> pyval) list \<Rightarrow> nat \<Rightarrow> pyval list \<Rightarrow> pyexn + (pykey \<times> pyval) list" where
  "update_pairs md i [] = Inr md"
| "update_pairs md i (x # xs) =
     (case pair_of i x of
        Inl e \<Rightarrow> Inl e
      | Inr (key, v) \<Rightarrow> update_pairs (AList.update key v md) (Suc i) xs)"

text \<open>
  \<open>metadata.update(v)\<close>: the items of a dict, or the pairs of a sequence. The characters
  of a string are sequences of length one, so only the empty string passes.
\<close>

fun py_update :: "(pykey \<times> pyval) list \<Rightarrow> pyval \<Rightarrow> pyexn + (pykey \<times> pyval) list" where
  "py_update md (PDict kvs) = Inr (fold (\<lambda>(key, v). AList.update (KStr key) v) kvs md)"
| "py_update md (PList xs) = update_pairs md 0 xs"
| "py_update md (PStr s) =
     (if s = [] then Inr md
      else Inl (PyExn ''ValueError''
                  ''dictionary update sequence element #0 has length 1; 2 is required''))"
| "py_update md v =
     Inl (PyExn ''TypeError'' (quoted (type_name v) @ '' object is not iterable''))"

text \<open>
  \<open>Document(page_content=content, metadata=metadata)\<close>: pydantic accepts a string for
  \<open>page_content\<close>. Of the other values only a non-empty list gets this far, and it is
  rejected; the text of pydantic's error is abridged to its first line.
\<close>

fun new_Document :: "pyval \<Rightarrow> (pykey \<times> pyval) list \<Rightarrow> pyexn + pykey Document" where
  "new_Document (PStr s) md = Inr \<lparr>page_content = s, metadata = md\<rparr>"
| "new_Document v md = Inl (PyExn ''ValidationError'' ''1 validation error for Document'')"

subsection \<open>Strings\<close>

text \<open>\<open>s.rstrip(c)\<close>, and the part of \<open>s\<close> after the last \<open>c\<close> (all of \<open>s\<close> without one):
  \<open>os.path.basename\<close> with \<open>/\<close>, \<open>s.split(".")[-1]\<close> with the dot.\<close>

definition rstrip :: "char \<Rightarrow> string \<Rightarrow> string" where
  "rstrip c s = rev (dropWhile (\<lambda>x. x = c) (rev s))"

definition after_last :: "char \<Rightarrow> string \<Rightarrow> string" where
  "after_last c s = rev (takeWhile (\<lambda>x. x \<noteq> c) (rev s))"

text \<open>\<open>s.lower()\<close>, on ASCII letters.\<close>

definition lower_char :: "char \<Rightarrow> char" where
  "lower_char c =
     (case map_of (zip ''ABCDEFGHIJKLMNOPQRSTUVWXYZ'' ''abcdefghijklmnopqrstuvwxyz'') c of
        Some l \<Rightarrow> l
      | None \<Rightarrow> c)"

definition lower :: "string \<Rightarrow> string" where
  "lower s = map lower_char s"

subsection \<open>The loader\<close>

record DoclingApiLoader =
  url :: string
  file_path :: string
  extract_tables_as_images :: bool
  image_resolution_scale :: int

text \<open>A \<open>requests.Response\<close>: \<open>json\<close> is what \<open>response.json()\<close> returns or raises.\<close>

record response =
  ok :: bool
  status_code :: int
  reason :: string
  resp_text :: string
  json :: "pyexn + pyval"

text \<open>
  What the loader takes from outside: \<open>os.path.exists\<close>, \<open>open(path, "rb")\<close>,
  \<open>requests.post(endpoint, files=files, data=data)\<close>, and Python's \<open>str\<close> of a decoded
  JSON value, which an f-string applies.
\<close>

record 'file env =
  path_exists :: "string \<Rightarrow> bool"
  open_rb :: "string \<Rightarrow> pyexn + 'file"
  post :: "string \<Rightarrow> (string \<times> string \<times> 'file \<times> string) list \<Rightarrow> (string \<times> string) list
             \<Rightarrow> pyexn + response"
  py_str :: "pyval \<Rightarrow> string"

text \<open>\<open>__init__\<close>.\<close>

definition loader_init ::
  "'file env \<Rightarrow> string \<Rightarrow> string \<Rightarrow> bool \<Rightarrow> int \<Rightarrow> pyexn + DoclingApiLoader" where
  "loader_init env url0 file_path0 extract0 scale0 =
     (if url0 = [] then Inl (PyExn ''ValueError'' ''Docling API URL cannot be empty.'')
      else if \<not> path_exists env file_path0 then
        Inl (PyExn ''FileNotFoundError'' (''File not found at '' @ file_path0))
      else
        Inr \<lparr>url = rstrip CHR ''/'' url0, file_path = file_path0,
             extract_tables_as_images = extract0,
             image_resolution_scale = max 1 (min 4 scale0)\<rparr>)"

text \<open>\<open>_get_mime_type\<close>.\<close>

definition mime_types :: "(string \<times> string) list" where
  "mime_types =
     [(''pdf'', ''application/pdf''),
      (''docx'', ''application/vnd.openxmlformats-officedocument.wordprocessingml.document''),
      (''doc'', ''application/msword''),
      (''xlsx'', ''application/vnd.openxmlformats-officedocument.spreadsheetml.sheet''),
      (''xls'', ''application/vnd.ms-excel''),
      (''pptx'', ''application/vnd.openxmlformats-officedocument.presentationml.presentation''),
      (''ppt'', ''application/vnd.ms-powerpoint''),
      (''txt'', ''text/plain''),
      (''csv'', ''text/csv''),
      (''html'', ''text/html''),
      (''htm'', ''text/html''),
      (''xml'', ''application/xml''),
      (''json'', ''application/json''),
      (''md'', ''text/markdown'')]"

definition get_mime_type :: "string \<Rightarrow> string" where
  "get_mime_type file_ext =
     (case map_of mime_types file_ext of
        Some m \<Rightarrow> m
      | None \<Rightarrow> ''application/octet-stream'')"

text \<open>
  Lines 79 to 95: the content of a decoded response. The first of the four keys that is
  in \<open>result\<close> gives the content; a content that is not true is looked for once more
  inside \<open>result["document"]\<close>, when that is a dict.
\<close>

definition top_level_content :: "pyval \<Rightarrow> pyexn + pyval" where
  "top_level_content result =
     (case py_contains ''content'' result of
        Inl e \<Rightarrow> Inl e
      | Inr True \<Rightarrow> py_getitem result ''content''
      | Inr False \<Rightarrow>
         (case py_contains ''text'' result of
            Inl e \<Rightarrow> Inl e
          | Inr True \<Rightarrow> py_getitem result ''text''
          | Inr False \<Rightarrow>
             (case py_contains ''markdown'' result of
                Inl e \<Rightarrow> Inl e
              | Inr True \<Rightarrow> py_getitem result ''markdown''
              | Inr False \<Rightarrow>
                 (case py_contains ''md_content'' result of
                    Inl e \<Rightarrow> Inl e
                  | Inr True \<Rightarrow> py_getitem result ''md_content''
                  | Inr False \<Rightarrow> Inr (PStr '''')))))"

definition response_content :: "pyval \<Rightarrow> pyexn + pyval" where
  "response_content result =
     (case top_level_content result of
        Inl e \<Rightarrow> Inl e
      | Inr content \<Rightarrow>
         (if truthy content then Inr content
          else
            (case py_contains ''document'' result of
               Inl e \<Rightarrow> Inl e
             | Inr False \<Rightarrow> Inr content
             | Inr True \<Rightarrow>
                (case py_getitem result ''document'' of
                   Inl e \<Rightarrow> Inl e
                 | Inr (PDict document) \<Rightarrow>
                     Inr (dict_get document ''content''
                           (dict_get document ''text''
                             (dict_get document ''markdown''
                               (dict_get document ''md_content'' (PStr '''')))))
                 | Inr other \<Rightarrow> Inr content))))"

text \<open>
  Lines 72 to 113, the branch of \<open>response.ok\<close>: the document made from the response,
  or the exception raised on the way, and the log records.
\<close>

definition convert_ok ::
  "response \<Rightarrow> string \<Rightarrow> string \<Rightarrow> (pyexn + pykey Document) \<times> log_record list" where
  "convert_ok r file_name mime_type =
     (case json r of
        Inl e \<Rightarrow> (Inl e, [])
      | Inr result \<Rightarrow>
         (case response_content result of
            Inl e \<Rightarrow> (Inl e, [])
          | Inr content0 \<Rightarrow>
             (let (content, lg) =
                    (if truthy content0 then (content0, [])
                     else (PStr ''<No text content found>'',
                           [LogWarning ''No content found in Docling API response'']))
              in (case py_slice content of
                    Inl e \<Rightarrow> (Inl e, lg)
                  | Inr shown \<Rightarrow>
                     (let md = [(KStr ''source'', PStr file_name),
                                (KStr ''content_type'', PStr mime_type)]
                      in (case py_contains ''metadata'' result of
                            Inl e \<Rightarrow> (Inl e, lg)
                          | Inr False \<Rightarrow> (new_Document content md, lg)
                          | Inr True \<Rightarrow>
                             (case py_getitem result ''metadata'' of
                                Inl e \<Rightarrow> (Inl e, lg)
                              | Inr extra \<Rightarrow>
                                 (case py_update md extra of
                                    Inl e \<Rightarrow> (Inl e, lg)
                                  | Inr md' \<Rightarrow> (new_Document content md', lg)))))))))"

text \<open>
  Lines 115 to 122: the message for a response that is not \<open>ok\<close>. The inner \<open>try\<close>
  turns every exception into the text of the response.
\<close>

definition error_msg :: "(pyval \<Rightarrow> string) \<Rightarrow> response \<Rightarrow> string" where
  "error_msg str r =
     (let msg = ''Error calling Docling API: '' @ str_int (status_code r) @ '' - '' @ reason r
      in if resp_text r \<noteq> [] then
           (case json r of
              Inl e \<Rightarrow> msg @ '' - '' @ resp_text r
            | Inr error_data \<Rightarrow>
               (case py_contains ''detail'' error_data of
                  Inl e \<Rightarrow> msg @ '' - '' @ resp_text r
                | Inr False \<Rightarrow> msg
                | Inr True \<Rightarrow>
                   (case py_getitem error_data ''detail'' of
                      Inl e \<Rightarrow> msg @ '' - '' @ resp_text r
                    | Inr detail \<Rightarrow> msg @ '' - '' @ str detail)))
         else msg)"

text \<open>
  Lines 49 to 69: the request. The result is the response together with \<open>file_name\<close>
  and \<open>mime_type\<close>, which the rest of the body uses, or the exception of \<open>open\<close> or of
  \<open>requests.post\<close>.
\<close>

definition send_request ::
  "'file env \<Rightarrow> DoclingApiLoader \<Rightarrow> pyexn + (response \<times> string \<times> string)" where
  "send_request env self =
     (let endpoint = url self @ ''/documents/convert'';
          file_name = after_last CHR ''/'' (file_path self);
          file_ext = lower (after_last CHR ''.'' file_name);
          mime_type = get_mime_type file_ext
      in (case open_rb env (file_path self) of
            Inl e \<Rightarrow> Inl e
          | Inr f \<Rightarrow>
             (let files = [(''document'', (file_name, f, mime_type))];
                  data = [(''extract_tables_as_images'',
                             if extract_tables_as_images self then ''true'' else ''false''),
                          (''image_resolution_scale'', str_int (image_resolution_scale self))]
              in (case post env endpoint files data of
                    Inl e \<Rightarrow> Inl e
                  | Inr r \<Rightarrow> Inr (r, file_name, mime_type)))))"

text \<open>
  Lines 49 to 125, the body of the \<open>try\<close> of \<open>load\<close>: the document of the list that a
  \<open>return\<close> gives, or the exception that leaves the body.
\<close>

definition load_try ::
  "'file env \<Rightarrow> DoclingApiLoader \<Rightarrow> (pyexn + pykey Document) \<times> log_record list" where
  "load_try env self =
     (case send_request env self of
        Inl e \<Rightarrow> (Inl e, [])
      | Inr (r, file_name, mime_type) \<Rightarrow>
         (if ok r then convert_ok r file_name mime_type
          else
            (let m = error_msg (py_str env) r
             in (Inr \<lparr>page_content = ''Error during processing: '' @ m, metadata = []\<rparr>,
                 [LogError m]))))"

text \<open>\<open>load\<close>: the list returned, and the log records.\<close>

definition load ::
  "'file env \<Rightarrow> DoclingApiLoader \<Rightarrow> pykey Document list \<times> log_record list" where
  "load env self =
     (case load_try env self of
        (Inr doc, lg) \<Rightarrow> ([doc], lg)
      | (Inl e, lg) \<Rightarrow>
          ([\<lparr>page_content = ''Error during processing: '' @ exn_msg e, metadata = []\<rparr>],
           lg @ [LogError (''An error occurred during the loading process: '' @ exn_msg e)]))"


text \<open>The document that reports an error: its text begins with \<open>Error during processing:\<close>.\<close>

definition error_document :: "'key Document \<Rightarrow> bool" where
  "error_document doc = (take 24 (page_content doc) = ''Error during processing:'')"

subsection \<open>Small environments\<close>

text \<open>
  An environment for concrete runs: every file opens, and the server answers every
  request with \<open>r\<close>. Python's \<open>str\<close> is needed on strings only.
\<close>

definition answering :: "response \<Rightarrow> string env" where
  "answering r =
     \<lparr>path_exists = (\<lambda>p. True),
      open_rb = (\<lambda>p. Inr ''bytes''),
      post = (\<lambda>endpoint files data. Inr r),
      py_str = (\<lambda>v. case v of PStr s \<Rightarrow> s | _ \<Rightarrow> ''?'')\<rparr>"

text \<open>An environment without the file.\<close>

definition no_file :: "string env" where
  "no_file =
     \<lparr>path_exists = (\<lambda>p. False),
      open_rb = (\<lambda>p. Inl (PyExn ''FileNotFoundError'' ''No such file or directory'')),
      post = (\<lambda>endpoint files data.
                Inl (PyExn ''ConnectionError'' ''connection refused'')),
      py_str = (\<lambda>v. ''?'')\<rparr>"

definition report_loader :: DoclingApiLoader where
  "report_loader =
     \<lparr>url = ''http://localhost:8822'', file_path = ''/tmp/Report.PDF'',
      extract_tables_as_images = True, image_resolution_scale = 4\<rparr>"

text \<open>Responses of the server: a conversion, a content inside \<open>document\<close>, a body
  without content, a content that is a number, and an HTTP error.\<close>

definition ok_markdown :: response where
  "ok_markdown =
     \<lparr>ok = True, status_code = 200, reason = ''OK'', resp_text = ''{...}'',
      json = Inr (PDict [(''markdown'', PStr ''# Title''),
                         (''metadata'', PDict [(''pages'', PInt 3)])])\<rparr>"

definition ok_nested :: response where
  "ok_nested =
     \<lparr>ok = True, status_code = 200, reason = ''OK'', resp_text = ''{...}'',
      json = Inr (PDict [(''content'', PNone),
                         (''document'', PDict [(''md_content'', PStr ''nested text'')])])\<rparr>"

definition ok_empty :: response where
  "ok_empty =
     \<lparr>ok = True, status_code = 200, reason = ''OK'', resp_text = ''{...}'',
      json = Inr (PDict [(''content'', PStr ''''), (''document'', PDict [(''text'', PNone)])])\<rparr>"

definition ok_number :: response where
  "ok_number =
     \<lparr>ok = True, status_code = 200, reason = ''OK'', resp_text = ''{...}'',
      json = Inr (PDict [(''content'', PInt 5)])\<rparr>"

definition http_500 :: response where
  "http_500 =
     \<lparr>ok = False, status_code = 500, reason = ''Internal Server Error'',
      resp_text = ''{...}'', json = Inr (PDict [(''detail'', PStr ''boom'')])\<rparr>"

section \<open>Properties of \<open>__init__\<close>\<close>

text \<open>
  C9. When the bm25s package is missing (\<open>BM25S_AVAILABLE\<close> is false), construction
  raises: for all arguments the outcome is the ImportError of lines 32 to 35, and no
  retriever is built.
\<close>

theorem init_unavailable_raises:
  "fst (init False b ts ms kk) =
     Inl (PyExn ''ImportError''
            ''bm25s package not found. Please install it with `pip install bm25s`.'')"
  by (simp add: init_def)

text \<open>
  C8. When \<open>activate_numba_scorer\<close> raises, construction still succeeds: the retriever
  holds the BM25 object as \<open>index\<close> left it, and the only trace of the failure is one
  warning in the log.
\<close>

theorem init_numba_failure_not_fatal:
  assumes "tokenize b (Texts ts) = Inr toks"
    and "BM25 b ''lucene'' = Inr obj"
    and "index b obj toks = Inr indexed"
    and "activate_numba_scorer b indexed = Inl e"
  shows "init True b ts ms kk =
     (Inr \<lparr>texts = ts, metadatas = ms, k = kk, corpus_tokens = toks, retriever = indexed\<rparr>,
      [LogWarning (''BM25S: Could not activate Numba acceleration: '' @ exn_msg e)])"
  using assms by (simp add: init_def)

theorem init_numba_failure_not_fatal_witness:
  "init True (stub_bm25s no_results) [''cat''] [[]] 4 =
     (Inr \<lparr>texts = [''cat''], metadatas = [[]], k = 4, corpus_tokens = [''cat''], retriever = 1\<rparr>,
      [LogWarning ''BM25S: Could not activate Numba acceleration: Numba is not installed''])"
  using init_numba_failure_not_fatal
          [of "stub_bm25s no_results" "[''cat'']" "[''cat'']" 0 1
              "PyExn ''ImportError'' ''Numba is not installed''" "[[]]" 4]
  by (simp add: stub_bm25s_def)

text \<open>
  C3, as the code has it. The claim fails: three texts with two metadata mappings (and
  \<open>k = 2\<close>), and one text with \<open>k = 0\<close>, both give a retriever.
\<close>

theorem init_length_mismatch_counterexample:
  "fst (init True (stub_bm25s no_results) [''cat'', ''dog'', ''bird''] [[], []] 2) =
     Inr \<lparr>texts = [''cat'', ''dog'', ''bird''], metadatas = [[], []], k = 2,
          corpus_tokens = [''cat'', ''dog'', ''bird''], retriever = 3\<rparr>
   \<and> fst (init True (stub_bm25s no_results) [''cat''] [[]] 0) =
     Inr \<lparr>texts = [''cat''], metadatas = [[]], k = 0, corpus_tokens = [''cat''], retriever = 1\<rparr>"
  by (simp add: init_def stub_bm25s_def)

text \<open>
  C3, amended. \<open>__init__\<close> checks neither the lengths nor \<open>k\<close>: whenever bm25s is
  there and tokenizing and indexing the corpus return, it builds a retriever that holds
  the texts, the metadata mappings and \<open>k\<close> as they were given, whatever their lengths
  and whatever the sign of \<open>k\<close>.
\<close>

theorem init_accepts_any_lengths_and_k:
  assumes "tokenize b (Texts ts) = Inr toks"
    and "BM25 b ''lucene'' = Inr obj"
    and "index b obj toks = Inr indexed"
  shows "\<exists>r. fst (init True b ts ms kk) = Inr r
            \<and> texts r = ts \<and> metadatas r = ms \<and> k r = kk"
  using assms by (simp add: init_def split: sum.splits)

theorem init_accepts_any_lengths_and_k_witness:
  "\<exists>r. fst (init True (stub_bm25s no_results) [''cat'', ''dog'', ''bird''] [[], []] (- 1)) = Inr r
      \<and> texts r = [''cat'', ''dog'', ''bird''] \<and> metadatas r = [[], []] \<and> k r = - 1"
  using init_accepts_any_lengths_and_k
          [of "stub_bm25s no_results" "[''cat'', ''dog'', ''bird'']" "[''cat'', ''dog'', ''bird'']" 0 3 "[[], []]" "- 1"]
  by (simp add: stub_bm25s_def)

section \<open>The conversion loop\<close>

text \<open>The documents and log records of a pass are appended to those already there.\<close>

lemma convert_result_acc:
  "convert_result ts R S i (ms, docs, lg) =
     (case convert_result ts R S i (ms, [], []) of
        Inl (e, w) \<Rightarrow> Inl (e, lg @ w)
      | Inr (ms', ds, w) \<Rightarrow> Inr (ms', docs @ ds, lg @ w))"
  by (simp add: convert_result_def Let_def split: sum.splits option.splits)

lemma convert_loop_acc:
  "convert_loop ts R S is (ms, docs, lg) =
     (case convert_loop ts R S is (ms, [], []) of
        ((ms', ds, w), e) \<Rightarrow> ((ms', docs @ ds, lg @ w), e))"
proof (induction "is" arbitrary: ms docs lg)
  case Nil
  show ?case by simp
next
  case (Cons i "is")
  show ?case
  proof (cases "convert_result ts R S i (ms, [], [])")
    case (Inl e)
    then show ?thesis by (cases e) (simp add: convert_result_acc[of ts R S i ms docs lg])
  next
    case (Inr st)
    obtain ms1 d1 w1 where st: "st = (ms1, d1, w1)" by (cases st) auto
    show ?thesis
      using Inr st Cons.IH[of ms1 "docs @ d1" "lg @ w1"] Cons.IH[of ms1 d1 w1]
      by (simp add: convert_result_acc[of ts R S i ms docs lg] split: prod.splits)
  qed
qed


lemma list_index_Some: "list_index xs x = Some d \<Longrightarrow> d < length xs \<and> xs ! d = x"
  by (induction xs arbitrary: d) (auto split: if_splits)

lemma list_index_nth_distinct:
  "distinct xs \<Longrightarrow> d < length xs \<Longrightarrow> list_index xs (xs ! d) = Some d"
proof (induction xs arbitrary: d)
  case Nil
  then show ?case by simp
next
  case (Cons y ys)
  show ?case
  proof (cases d)
    case 0
    then show ?thesis by simp
  next
    case (Suc d')
    with Cons.prems have "ys ! d' \<in> set ys" "y \<notin> set ys" by auto
    then have "y \<noteq> ys ! d'" by auto
    with Cons Suc show ?thesis by simp
  qed
qed

text \<open>\<open>list.index\<close> gives the first position, so the stored mapping of a text is the one
  at the least position of the text.\<close>

lemma list_index_first:
  "list_index xs x = Some d \<Longrightarrow> d < length xs \<and> xs ! d = x \<and> (\<forall>i<d. xs ! i \<noteq> x)"
proof (induction xs arbitrary: d)
  case Nil
  then show ?case by simp
next
  case (Cons y ys)
  show ?case
  proof (cases "y = x")
    case True
    with Cons.prems show ?thesis by simp
  next
    case False
    with Cons.prems obtain d' where d': "list_index ys x = Some d'" "d = Suc d'" by auto
    from Cons.IH[OF d'(1)] False d'(2) show ?thesis
      by (auto simp: nth_Cons split: nat.splits)
  qed
qed

lemma list_index_None: "list_index xs x = None \<longleftrightarrow> x \<notin> set xs"
  by (induction xs) auto

lemma stored_metadata_first:
  "stored_metadata ts ms t =
     (if \<exists>d<length ts. ts ! d = t
      then (let d = (LEAST d. d < length ts \<and> ts ! d = t)
            in if d < length ms then ms ! d else [])
      else [])"
proof (cases "list_index ts t")
  case None
  then have "t \<notin> set ts" by (simp add: list_index_None)
  then have "\<not> (\<exists>d<length ts. ts ! d = t)" by auto
  with None show ?thesis by (auto simp: stored_metadata_def)
next
  case (Some d)
  from list_index_first[OF Some] have d: "d < length ts" "ts ! d = t" "\<forall>i<d. ts ! i \<noteq> t"
    by auto
  have "(LEAST d. d < length ts \<and> ts ! d = t) = d"
  proof (rule Least_equality)
    show "d < length ts \<and> ts ! d = t" using d by simp
  next
    fix y assume "y < length ts \<and> ts ! y = t"
    then show "d \<le> y" using d by (auto simp: not_less[symmetric])
  qed
  with Some d show ?thesis by (auto simp: stored_metadata_def)
qed

lemma stored_metadata_distinct:
  "distinct ts \<Longrightarrow> d < length ts \<Longrightarrow>
     stored_metadata ts ms (ts ! d) = (if d < length ms then ms ! d else [])"
  by (simp add: stored_metadata_def list_index_nth_distinct)

lemma step_shape:
  "convert_result ts R S i (ms, [], []) = Inr (ms', ds, w) \<Longrightarrow>
     length ms' = length ms \<and> length ds = 1"
  by (auto simp: convert_result_def Let_def split: sum.splits option.splits if_splits)

lemma step_keep:
  "convert_result ts R S i (ms, [], []) = Inr (ms', ds, w) \<Longrightarrow>
     x < length ms \<Longrightarrow> map_of (ms ! x) ''score'' \<noteq> None \<Longrightarrow> ms' ! x = ms ! x"
  by (auto simp: convert_result_def Let_def nth_list_update
      split: sum.splits option.splits if_splits)

lemma step_unavailable:
  "convert_result ts R S i (ms, [], []) = Inr (ms', ds, w) \<Longrightarrow>
     score_at S i = Inr None \<Longrightarrow> ms' = ms"
  by (auto simp: convert_result_def Let_def split: sum.splits option.splits if_splits)

lemma step_idem:
  assumes "convert_result ts R S i (ms, [], []) = Inr (ms1, ds, w)"
    and "length ms' = length ms1"
    and "\<forall>x<length ms1. map_of (ms1 ! x) ''score'' \<noteq> None \<longrightarrow> ms' ! x = ms1 ! x"
    and "score_at S i = Inr None \<longrightarrow> ms' = ms1"
  shows "convert_result ts R S i (ms', [], []) = Inr (ms', ds, w)"
  using assms
  by (auto simp: convert_result_def Let_def update_conv'
      split: sum.splits option.splits if_splits)


lemma convert_loop_Cons:
  "convert_loop ts R S (i # is) (ms, [], []) =
     (case convert_result ts R S i (ms, [], []) of
        Inl (e, w1) \<Rightarrow> ((ms, [], w1), Some e)
      | Inr (ms1, d1, w1) \<Rightarrow>
         (case convert_loop ts R S is (ms1, [], []) of
            ((ms', ds, w), e) \<Rightarrow> ((ms', d1 @ ds, w1 @ w), e)))"
proof (cases "convert_result ts R S i (ms, [], [])")
  case (Inl e)
  then show ?thesis by (auto split: prod.splits)
next
  case (Inr st)
  obtain ms1 d1 w1 where st: "st = (ms1, d1, w1)" by (cases st) auto
  show ?thesis
    using Inr st convert_loop_acc[of ts R S "is" ms1 d1 w1]
    by (simp split: prod.splits)
qed

lemma loop_shape:
  "convert_loop ts R S is (ms, [], []) = ((ms', ds, w), e) \<Longrightarrow>
     length ms' = length ms \<and> length ds \<le> length is"
proof (induction "is" arbitrary: ms ms' ds w e)
  case Nil
  then show ?case by simp
next
  case (Cons i "is")
  show ?case
  proof (cases "convert_result ts R S i (ms, [], [])")
    case (Inl x)
    with Cons.prems[unfolded convert_loop_Cons] show ?thesis by (auto split: prod.splits)
  next
    case (Inr st)
    obtain ms1 d1 w1 where st: "st = (ms1, d1, w1)" by (cases st) auto
    obtain ms2 ds2 w2 e2 where l: "convert_loop ts R S is (ms1, [], []) = ((ms2, ds2, w2), e2)"
      by (metis prod_cases3 surj_pair)
    from Cons.prems(1)[unfolded convert_loop_Cons] Inr st l have eq: "ms' = ms2" "ds = d1 @ ds2"
      by simp_all
    from step_shape[of ts R S i ms ms1 d1 w1] Inr st
    have "length ms1 = length ms" "length d1 = 1" by simp_all
    with Cons.IH[OF l] eq show ?thesis by simp
  qed
qed

lemma loop_keep:
  "convert_loop ts R S is (ms, [], []) = ((ms', ds, w), e) \<Longrightarrow>
     x < length ms \<Longrightarrow> map_of (ms ! x) ''score'' \<noteq> None \<Longrightarrow> ms' ! x = ms ! x"
proof (induction "is" arbitrary: ms ms' ds w e)
  case Nil
  then show ?case by simp
next
  case (Cons i "is")
  show ?case
  proof (cases "convert_result ts R S i (ms, [], [])")
    case (Inl x)
    with Cons.prems[unfolded convert_loop_Cons] show ?thesis by (auto split: prod.splits)
  next
    case (Inr st)
    obtain ms1 d1 w1 where st: "st = (ms1, d1, w1)" by (cases st) auto
    obtain ms2 ds2 w2 e2 where l: "convert_loop ts R S is (ms1, [], []) = ((ms2, ds2, w2), e2)"
      by (metis prod_cases3 surj_pair)
    from Cons.prems(1)[unfolded convert_loop_Cons] Inr st l have eq: "ms' = ms2"
      by simp_all
    have s: "convert_result ts R S i (ms, [], []) = Inr (ms1, d1, w1)" using Inr st by simp
    have a: "ms1 ! x = ms ! x" using step_keep[OF s Cons.prems(2) Cons.prems(3)] .
    have b: "length ms1 = length ms" using step_shape[OF s] by simp
    from Cons.IH[OF l, of ] Cons.prems(2,3) a b eq show ?thesis by simp
  qed
qed

lemma loop_unavailable:
  "convert_loop ts R S is (ms, [], []) = ((ms', ds, w), e) \<Longrightarrow>
     \<forall>i\<in>set is. score_at S i = Inr None \<Longrightarrow> ms' = ms"
proof (induction "is" arbitrary: ms ms' ds w e)
  case Nil
  then show ?case by simp
next
  case (Cons i "is")
  show ?case
  proof (cases "convert_result ts R S i (ms, [], [])")
    case (Inl x)
    with Cons.prems[unfolded convert_loop_Cons] show ?thesis by (auto split: prod.splits)
  next
    case (Inr st)
    obtain ms1 d1 w1 where st: "st = (ms1, d1, w1)" by (cases st) auto
    obtain ms2 ds2 w2 e2 where l: "convert_loop ts R S is (ms1, [], []) = ((ms2, ds2, w2), e2)"
      by (metis prod_cases3 surj_pair)
    from Cons.prems(1)[unfolded convert_loop_Cons] Inr st l have eq: "ms' = ms2"
      by simp_all
    have s: "convert_result ts R S i (ms, [], []) = Inr (ms1, d1, w1)" using Inr st by simp
    have a: "ms1 = ms" using step_unavailable[OF s] Cons.prems(2) by simp
    from Cons.IH[OF l] Cons.prems(2) a eq show ?thesis by simp
  qed
qed

lemma score_at_mono:
  "score_at S i = Inr None \<Longrightarrow> i \<le> i' \<Longrightarrow> score_at S i' = Inr None"
  by (auto simp: score_at_def split: scores_obj.splits list.splits if_splits)

lemma loop_idem:
  "convert_loop ts R S [j..<n] (ms, [], []) = ((ms', ds, w), e) \<Longrightarrow>
   convert_loop ts R S [j..<n] (ms', [], []) = ((ms', ds, w), e)"
proof (induction "n - j" arbitrary: j ms ms' ds w e)
  case 0
  then show ?case by simp
next
  case (Suc m)
  then have jn: "j < n" and up: "[j..<n] = j # [Suc j..<n]" and m: "m = n - Suc j"
    by (auto simp: upt_conv_Cons)
  show ?case
  proof (cases "convert_result ts R S j (ms, [], [])")
    case (Inl x)
    with Suc.prems[unfolded up convert_loop_Cons] show ?thesis unfolding up convert_loop_Cons by (auto split: prod.splits)
  next
    case (Inr st)
    obtain ms1 d1 w1 where st: "st = (ms1, d1, w1)" by (cases st) auto
    obtain ms2 ds2 w2 e2 where l: "convert_loop ts R S [Suc j..<n] (ms1, [], []) = ((ms2, ds2, w2), e2)"
      by (metis prod_cases3 surj_pair)
    from Suc.prems[unfolded up convert_loop_Cons] Inr st l have eq: "ms' = ms2" "ds = d1 @ ds2" "w = w1 @ w2" "e = e2"
      by simp_all
    have s: "convert_result ts R S j (ms, [], []) = Inr (ms1, d1, w1)" using Inr st by simp
    have ih: "convert_loop ts R S [Suc j..<n] (ms2, [], []) = ((ms2, ds2, w2), e2)"
      using Suc.hyps(1)[OF m l] .
    have len: "length ms2 = length ms1" using loop_shape[OF l] by simp
    have keep: "\<forall>x<length ms1. map_of (ms1 ! x) ''score'' \<noteq> None \<longrightarrow> ms2 ! x = ms1 ! x"
      using loop_keep[OF l] by blast
    have un: "score_at S j = Inr None \<longrightarrow> ms2 = ms1"
    proof
      assume a: "score_at S j = Inr None"
      have "\<forall>i\<in>set [Suc j..<n]. score_at S i = Inr None"
        using score_at_mono[OF a] by auto
      then show "ms2 = ms1" using loop_unavailable[OF l] by blast
    qed
    have s2: "convert_result ts R S j (ms2, [], []) = Inr (ms2, d1, w1)"
      using step_idem[OF s len keep un] .
    show ?thesis unfolding up convert_loop_Cons using s2 ih eq by simp
  qed
qed

lemma step_doc:
  assumes "convert_result ts R S i (ms, [], []) = Inr (ms1, d1, w1)"
  shows "\<exists>t doc. item R 0 i = Inr t \<and> d1 = [doc] \<and> page_content doc = t \<and>
           (\<forall>key. key \<noteq> ''score'' \<longrightarrow>
               map_of (metadata doc) key = map_of (stored_metadata ts ms t) key) \<and>
           (\<forall>s. score_at S i = Inr (Some s) \<longrightarrow>
               map_of (metadata doc) ''score'' =
                 (case map_of (stored_metadata ts ms t) ''score'' of
                    Some v \<Rightarrow> Some v | None \<Rightarrow> Some (PFloat s)))"
  using assms
  by (auto simp: convert_result_def Let_def stored_metadata_def update_conv'
      split: sum.splits option.splits if_splits)

lemma step_store:
  assumes "convert_result ts R S i (ms, [], []) = Inr (ms1, d1, w1)"
  shows "\<forall>key. key \<noteq> ''score'' \<longrightarrow>
           map_of (stored_metadata ts ms1 t) key = map_of (stored_metadata ts ms t) key"
  using assms
  by (auto simp: convert_result_def Let_def stored_metadata_def update_conv' nth_list_update
      split: sum.splits option.splits if_splits)

lemma step_other:
  assumes "convert_result ts R S i (ms, [], []) = Inr (ms1, d1, w1)"
    and "item R 0 i = Inr t0" and "t \<noteq> t0"
  shows "stored_metadata ts ms1 t = stored_metadata ts ms t"
  using assms list_index_Some[of ts t] list_index_Some[of ts t0]
  by (auto simp: convert_result_def Let_def stored_metadata_def nth_list_update
      split: sum.splits option.splits if_splits)

lemma loop_docs:
  "convert_loop ts R S is (ms, [], []) = ((ms', ds, w), e) \<Longrightarrow> j < length ds \<Longrightarrow>
     \<exists>t. item R 0 (is ! j) = Inr t \<and> page_content (ds ! j) = t \<and>
         (\<forall>key. key \<noteq> ''score'' \<longrightarrow>
            map_of (metadata (ds ! j)) key = map_of (stored_metadata ts ms t) key)"
proof (induction "is" arbitrary: ms ms' ds w e j)
  case Nil
  then show ?case by simp
next
  case (Cons i "is")
  show ?case
  proof (cases "convert_result ts R S i (ms, [], [])")
    case (Inl x)
    with Cons.prems(1)[unfolded convert_loop_Cons] Cons.prems(2) show ?thesis by (auto split: prod.splits)
  next
    case (Inr st)
    obtain ms1 d1 w1 where st: "st = (ms1, d1, w1)" by (cases st) auto
    obtain ms2 ds2 w2 e2 where l: "convert_loop ts R S is (ms1, [], []) = ((ms2, ds2, w2), e2)"
      by (metis prod_cases3 surj_pair)
    from Cons.prems(1)[unfolded convert_loop_Cons] Inr st l have eq: "ds = d1 @ ds2"
      by simp
    have s: "convert_result ts R S i (ms, [], []) = Inr (ms1, d1, w1)" using Inr st by simp
    from step_doc[OF s] obtain t0 doc where d: "item R 0 i = Inr t0" "d1 = [doc]"
      "page_content doc = t0"
      "\<forall>key. key \<noteq> ''score'' \<longrightarrow> map_of (metadata doc) key = map_of (stored_metadata ts ms t0) key"
      by blast
    show ?thesis
    proof (cases j)
      case 0
      with d eq show ?thesis by simp
    next
      case (Suc j')
      with Cons.prems(2) eq d have j': "j' < length ds2" by simp
      from Cons.IH[OF l j'] obtain t where t: "item R 0 (is ! j') = Inr t"
        "page_content (ds2 ! j') = t"
        "\<forall>key. key \<noteq> ''score'' \<longrightarrow> map_of (metadata (ds2 ! j')) key = map_of (stored_metadata ts ms1 t) key"
        by blast
      from step_store[OF s, of t] t(3)
      have "\<forall>key. key \<noteq> ''score'' \<longrightarrow> map_of (metadata (ds2 ! j')) key = map_of (stored_metadata ts ms t) key"
        by simp
      with t Suc eq d show ?thesis by simp
    qed
  qed
qed

lemma loop_score:
  "convert_loop ts R S is (ms, [], []) = ((ms', ds, w), e) \<Longrightarrow>
   distinct (map (item R 0) is) \<Longrightarrow> j < length ds \<Longrightarrow>
   score_at S (is ! j) = Inr (Some s) \<Longrightarrow> item R 0 (is ! j) = Inr t \<Longrightarrow>
     map_of (metadata (ds ! j)) ''score'' =
       (case map_of (stored_metadata ts ms t) ''score'' of
          Some v \<Rightarrow> Some v | None \<Rightarrow> Some (PFloat s))"
proof (induction "is" arbitrary: ms ms' ds w e j)
  case Nil
  then show ?case by simp
next
  case (Cons i "is")
  show ?case
  proof (cases "convert_result ts R S i (ms, [], [])")
    case (Inl x)
    with Cons.prems(1)[unfolded convert_loop_Cons] Cons.prems(3) show ?thesis by (auto split: prod.splits)
  next
    case (Inr st)
    obtain ms1 d1 w1 where st: "st = (ms1, d1, w1)" by (cases st) auto
    obtain ms2 ds2 w2 e2 where l: "convert_loop ts R S is (ms1, [], []) = ((ms2, ds2, w2), e2)"
      by (metis prod_cases3 surj_pair)
    from Cons.prems(1)[unfolded convert_loop_Cons] Inr st l have eq: "ds = d1 @ ds2"
      by simp
    have s: "convert_result ts R S i (ms, [], []) = Inr (ms1, d1, w1)" using Inr st by simp
    from step_doc[OF s] obtain t0 doc where d: "item R 0 i = Inr t0" "d1 = [doc]"
      "\<forall>s. score_at S i = Inr (Some s) \<longrightarrow>
               map_of (metadata doc) ''score'' =
                 (case map_of (stored_metadata ts ms t0) ''score'' of
                    Some v \<Rightarrow> Some v | None \<Rightarrow> Some (PFloat s))"
      by blast
    show ?thesis
    proof (cases j)
      case 0
      with d eq Cons.prems(4,5) show ?thesis by simp
    next
      case (Suc j')
      with Cons.prems(3) eq d have j': "j' < length ds2" by simp
      have dist: "distinct (map (item R 0) is)" using Cons.prems(2) by simp
      have sc: "score_at S (is ! j') = Inr (Some s)" and it: "item R 0 (is ! j') = Inr t"
        using Cons.prems(4,5) Suc by simp_all
      have "j' < length is" using loop_shape[OF l] j' by simp
      then have "is ! j' \<in> set is" by simp
      then have "item R 0 (is ! j') \<in> set (map (item R 0) is)" by simp
      moreover have "item R 0 i \<notin> set (map (item R 0) is)" using Cons.prems(2) by simp
      ultimately have ne: "t \<noteq> t0" using it d(1) by auto
      from Cons.IH[OF l dist j' sc it] step_other[OF s d(1) ne]
      show ?thesis using Suc eq d(2) by simp
    qed
  qed
qed

lemma step_fail_iff:
  "isl (convert_result ts R S i st) \<longleftrightarrow> isl (item R 0 i) \<or> isl (score_at S i)"
  by (cases st) (auto simp: convert_result_def Let_def split: sum.splits option.splits)

lemma loop_fail:
  "convert_loop ts R S is (ms, [], []) = (st', Some e) \<Longrightarrow>
     \<exists>i\<in>set is. isl (item R 0 i) \<or> isl (score_at S i)"
proof (induction "is" arbitrary: ms st' e)
  case Nil
  then show ?case by simp
next
  case (Cons i "is")
  show ?case
  proof (cases "convert_result ts R S i (ms, [], [])")
    case (Inl x)
    then have "isl (convert_result ts R S i (ms, [], []))" by (auto split: prod.splits)
    then show ?thesis using step_fail_iff[of ts R S i "(ms, [], [])"] by auto
  next
    case (Inr st)
    obtain ms1 d1 w1 where st: "st = (ms1, d1, w1)" by (cases st) auto
    obtain ms2 ds2 w2 e2 where l: "convert_loop ts R S is (ms1, [], []) = ((ms2, ds2, w2), e2)"
      by (metis prod_cases3 surj_pair)
    from Cons.prems(1)[unfolded convert_loop_Cons] Inr st l have "e2 = Some e" by simp
    with Cons.IH[of ms1 "(ms2, ds2, w2)" e] l show ?thesis by auto
  qed
qed

lemma loop_complete:
  "convert_loop ts R S is (ms, [], []) = ((ms', ds, w), e) \<Longrightarrow>
   \<forall>i\<in>set is. \<not> isl (item R 0 i) \<and> \<not> isl (score_at S i) \<Longrightarrow>
     e = None \<and> length ds = length is"
proof (induction "is" arbitrary: ms ms' ds w e)
  case Nil
  then show ?case by simp
next
  case (Cons i "is")
  have "\<not> isl (convert_result ts R S i (ms, [], []))"
    using step_fail_iff[of ts R S i "(ms, [], [])"] Cons.prems(2) by simp
  then obtain st where Inr: "convert_result ts R S i (ms, [], []) = Inr st"
    by (cases "convert_result ts R S i (ms, [], [])") auto
  obtain ms1 d1 w1 where st: "st = (ms1, d1, w1)" by (cases st) auto
  obtain ms2 ds2 w2 e2 where l: "convert_loop ts R S is (ms1, [], []) = ((ms2, ds2, w2), e2)"
    by (metis prod_cases3 surj_pair)
  from Cons.prems(1)[unfolded convert_loop_Cons] Inr st l have eq: "ds = d1 @ ds2" "e = e2"
    by simp_all
  have "length d1 = 1" using step_shape[of ts R S i ms ms1 d1 w1] Inr st by simp
  with Cons.IH[OF l] Cons.prems(2) eq show ?case by simp
qed

lemma item_fail_first:
  "wf_ndarray R \<Longrightarrow> i < shape1 R \<Longrightarrow> isl (item R 0 i) \<Longrightarrow> isl (item R 0 0)"
  by (cases "rows R") (auto simp: item_def wf_ndarray_def split: if_splits)

lemma score_at_fail_first: "isl (score_at S i) \<Longrightarrow> isl (score_at S 0)"
  by (auto simp: score_at_def split: scores_obj.splits list.splits if_splits)

lemma loop_fail_empty:
  assumes "convert_loop ts R S [0..<shape1 R] (ms, [], []) = ((ms', ds, w), Some e)"
    and "wf_ndarray R"
  shows "ds = [] \<and> ms' = ms"
proof -
  from loop_fail[OF assms(1)] obtain i where i: "i < shape1 R"
    "isl (item R 0 i) \<or> isl (score_at S i)" by auto
  then have f0: "isl (item R 0 0) \<or> isl (score_at S 0)"
    using item_fail_first[OF assms(2)] score_at_fail_first by blast
  then have "isl (convert_result ts R S 0 (ms, [], []))" by (simp add: step_fail_iff)
  then obtain e0 where e0: "convert_result ts R S 0 (ms, [], []) = Inl e0"
    by (cases "convert_result ts R S 0 (ms, [], [])") auto
  from i have up: "[0..<shape1 R] = 0 # [Suc 0..<shape1 R]" by (simp add: upt_conv_Cons)
  from assms(1)[unfolded up convert_loop_Cons] e0 show ?thesis by (auto split: prod.splits)
qed

text \<open>
  A document of the model holds the value that its mapping has when the document is made.
  In Python it may hold the stored object itself. The values are the same: a stored
  mapping that went into a document is the same at the end of the loop.
\<close>

lemma step_doc_store:
  assumes "convert_result ts R S i (ms, [], []) = Inr (ms1, d1, w1)"
    and "item R 0 i = Inr t" and "list_index ts t = Some d" and "d < length ms"
  shows "\<exists>doc. d1 = [doc] \<and> metadata doc = ms1 ! d \<and>
           (score_at S i = Inr None \<or> map_of (ms1 ! d) ''score'' \<noteq> None)"
  using assms
  by (auto simp: convert_result_def Let_def update_conv'
      split: sum.splits option.splits if_splits)

lemma documents_agree_with_store:
  "convert_loop ts R S [j0..<n] (ms, [], []) = ((ms', ds, w), e) \<Longrightarrow> j < length ds \<Longrightarrow>
   item R 0 (j0 + j) = Inr t \<Longrightarrow> list_index ts t = Some d \<Longrightarrow> d < length ms \<Longrightarrow>
     metadata (ds ! j) = ms' ! d"
proof (induction "n - j0" arbitrary: j0 ms ms' ds w e j)
  case 0
  then show ?case by simp
next
  case (Suc m)
  then have up: "[j0..<n] = j0 # [Suc j0..<n]" and m: "m = n - Suc j0"
    by (auto simp: upt_conv_Cons)
  show ?case
  proof (cases "convert_result ts R S j0 (ms, [], [])")
    case (Inl x)
    with Suc.prems(1)[unfolded up convert_loop_Cons] Suc.prems(2) show ?thesis by (auto split: prod.splits)
  next
    case (Inr st)
    obtain ms1 d1 w1 where st: "st = (ms1, d1, w1)" by (cases st) auto
    obtain ms2 ds2 w2 e2 where
      l: "convert_loop ts R S [Suc j0..<n] (ms1, [], []) = ((ms2, ds2, w2), e2)"
      by (metis prod_cases3 surj_pair)
    from Suc.prems(1)[unfolded up convert_loop_Cons] Inr st l
    have eq: "ms' = ms2" "ds = d1 @ ds2" by simp_all
    have s: "convert_result ts R S j0 (ms, [], []) = Inr (ms1, d1, w1)" using Inr st by simp
    have len1: "length ms1 = length ms" "length d1 = 1" using step_shape[OF s] by simp_all
    show ?thesis
    proof (cases j)
      case 0
      with Suc.prems(3) have it: "item R 0 j0 = Inr t" by simp
      from step_doc_store[OF s it Suc.prems(4,5)] obtain doc where
        doc: "d1 = [doc]" "metadata doc = ms1 ! d"
        and c: "score_at S j0 = Inr None \<or> map_of (ms1 ! d) ''score'' \<noteq> None"
        by blast
      have "ms2 ! d = ms1 ! d"
      proof (cases "score_at S j0 = Inr None")
        case True
        have "\<forall>i\<in>set [Suc j0..<n]. score_at S i = Inr None"
          using score_at_mono[OF True] by auto
        then show ?thesis using loop_unavailable[OF l] by simp
      next
        case False
        with c have "map_of (ms1 ! d) ''score'' \<noteq> None" by simp
        then show ?thesis using loop_keep[OF l] Suc.prems(5) len1 by simp
      qed
      with doc eq 0 show ?thesis by simp
    next
      case (Suc j')
      with Suc.prems(2) eq len1 have j': "j' < length ds2" by simp
      have it: "item R 0 (Suc j0 + j') = Inr t" using Suc.prems(3) Suc by simp
      have d: "d < length ms1" using Suc.prems(5) len1 by simp
      from Suc.hyps(1)[OF m l j' it Suc.prems(4) d]
      show ?thesis using eq Suc len1 by (simp add: nth_append)
    qed
  qed
qed

section \<open>Properties of \<open>_get_relevant_documents\<close>\<close>

text \<open>The definitions to unfold in a concrete run.\<close>

lemmas run_defs = get_relevant_documents_def stub_bm25s_def convert_result_def item_def
  score_at_def Let_def upt_conv_Cons

text \<open>Facts on arrays of one row, the shape that one query gives.\<close>

lemma item_row: "j < length row \<Longrightarrow> item (NDArray n [row]) 0 j = Inr (row ! j)"
  by (simp add: item_def)

lemma score_at_row_not_fail: "\<not> isl (score_at (NdArray (NDArray n [srow])) j)"
  by (simp add: score_at_def)

lemma score_at_row:
  "j < length srow \<Longrightarrow> score_at (NdArray (NDArray n [srow])) j = Inr (Some (srow ! j))"
  by (simp add: score_at_def)

lemma distinct_items:
  "distinct row \<Longrightarrow> distinct (map (item (NDArray n [row]) 0) [0..<length row])"
proof -
  assume d: "distinct row"
  have "map (item (NDArray n [row]) 0) [0..<length row] = map Inr row"
    by (rule nth_equalityI) (simp_all add: item_row)
  then show ?thesis using d by (simp add: distinct_map)
qed

lemma retrieve_unfold:
  assumes "tokenize b (Text q) = Inr toks"
    and "retrieve b (retriever self) toks (texts self) (k self) = Inr (R, S)"
    and "convert_loop (texts self) R S [0..<shape1 R] (metadatas self, [], []) = ((ms', ds, w), e)"
  shows "fst (get_relevant_documents b self q) = Inr ds"
  using assms by (cases e) (simp_all add: get_relevant_documents_def)

lemma length_select_top_k: "0 < kk \<Longrightarrow> int (length (select_top_k sc n kk)) \<le> min kk (int n)"
  by (auto simp: select_top_k_def)

text \<open>
  C1, as the code has it. The claim fails: the body finds the document of a result with
  \<open>self.texts.index(doc_text)\<close>, by its text. With two documents of text \<open>cat dog\<close>
  and metadata \<open>{id: 0, tag: a}\<close> and \<open>{id: 1, tag: b}\<close>, both results carry the
  metadata of document 0; the metadata of document 1 is in no result.
\<close>

theorem duplicate_texts_alias_metadata_counterexample:
  "fst (get_relevant_documents (stub_bm25s two_docs_answer)
         \<lparr>texts = [''cat dog'', ''cat dog''],
          metadatas = [[(''id'', PInt 0), (''tag'', PStr ''a'')],
                       [(''id'', PInt 1), (''tag'', PStr ''b'')]],
          k = 2, corpus_tokens = [''cat dog'', ''cat dog''], retriever = 2\<rparr> ''cat'') =
   Inr [\<lparr>page_content = ''cat dog'',
         metadata = [(''id'', PInt 0), (''tag'', PStr ''a''), (''score'', PFloat (1 / 2))]\<rparr>,
        \<lparr>page_content = ''cat dog'',
         metadata = [(''id'', PInt 0), (''tag'', PStr ''a''), (''score'', PFloat (1 / 2))]\<rparr>]"
  by (simp add: run_defs two_docs_answer_def)

text \<open>
  C1, amended. \<open>retrieve\<close> resolves a result by its text, at the first position of
  that text in the corpus. When the library hands back one row of texts and one row of
  scores, every result is returned, in that order, with the text handed back and, apart
  from the \<open>score\<close> field, the metadata stored at the first position of that text (the
  empty mapping when the text is not in the corpus or nothing is stored at that
  position). Nothing is assumed of the corpus: its texts may repeat.
\<close>

theorem retrieve_resolves_by_first_match:
  assumes "tokenize b (Text q) = Inr toks"
    and "retrieve b (retriever self) toks (texts self) (k self) =
           Inr (NDArray (length row) [row], NdArray (NDArray (length srow) [srow]))"
  shows "\<exists>docs. fst (get_relevant_documents b self q) = Inr docs \<and> length docs = length row \<and>
           (\<forall>j<length row.
              page_content (docs ! j) = row ! j \<and>
              (\<forall>key. key \<noteq> ''score'' \<longrightarrow>
                 map_of (metadata (docs ! j)) key =
                 map_of (stored_metadata (texts self) (metadatas self) (row ! j)) key))"
proof -
  let ?R = "NDArray (length row) [row]"
  let ?S = "NdArray (NDArray (length srow) [srow])"
  obtain ms' ds w e where l:
    "convert_loop (texts self) ?R ?S [0..<shape1 ?R] (metadatas self, [], []) = ((ms', ds, w), e)"
    by (metis prod_cases3 surj_pair)
  have l': "convert_loop (texts self) ?R ?S [0..<length row] (metadatas self, [], []) = ((ms', ds, w), e)"
    using l by simp
  have nofail: "\<forall>i\<in>set [0..<length row]. \<not> isl (item ?R 0 i) \<and> \<not> isl (score_at ?S i)"
    by (simp add: item_row score_at_row_not_fail)
  from loop_complete[OF l' nofail] have len: "length ds = length row" by simp
  have each: "\<forall>j<length row.
              page_content (ds ! j) = row ! j \<and>
              (\<forall>key. key \<noteq> ''score'' \<longrightarrow>
                 map_of (metadata (ds ! j)) key =
                 map_of (stored_metadata (texts self) (metadatas self) (row ! j)) key)"
  proof (intro allI impI)
    fix j assume j: "j < length row"
    then have a: "j < length ds" using len by simp
    have it: "item ?R 0 ([0..<length row] ! j) = Inr (row ! j)"
      using j by (simp add: item_row)
    from loop_docs[OF l' a] it
    show "page_content (ds ! j) = row ! j \<and>
              (\<forall>key. key \<noteq> ''score'' \<longrightarrow>
                 map_of (metadata (ds ! j)) key =
                 map_of (stored_metadata (texts self) (metadatas self) (row ! j)) key)"
      by auto
  qed
  from retrieve_unfold[OF assms(1,2) l] len each show ?thesis by blast
qed

theorem retrieve_resolves_by_first_match_witness:
  "\<exists>docs. fst (get_relevant_documents (stub_bm25s repeated_answer)
              \<lparr>texts = [''the cat sat'', ''the dog ran'', ''the dog ran''],
               metadatas = [[(''tag'', PStr ''a'')], [(''tag'', PStr ''b'')],
                            [(''tag'', PStr ''c'')]],
               k = 2,
               corpus_tokens = [''the cat sat'', ''the dog ran'', ''the dog ran''],
               retriever = 3\<rparr>
              ''dog'') = Inr docs
      \<and> length docs = 2
      \<and> page_content (docs ! 0) = ''the dog ran''
      \<and> map_of (metadata (docs ! 0)) ''tag'' = Some (PStr ''b'')
      \<and> page_content (docs ! 1) = ''the dog ran''
      \<and> map_of (metadata (docs ! 1)) ''tag'' = Some (PStr ''b'')"
  using retrieve_resolves_by_first_match
     [where b = "stub_bm25s repeated_answer" and q = "''dog''" and toks = "[''dog'']"
        and row = "[''the dog ran'', ''the dog ran'']" and srow = "[1 / 2, 1 / 2]"
        and self = "\<lparr>texts = [''the cat sat'', ''the dog ran'', ''the dog ran''],
               metadatas = [[(''tag'', PStr ''a'')], [(''tag'', PStr ''b'')],
                            [(''tag'', PStr ''c'')]],
               k = 2,
               corpus_tokens = [''the cat sat'', ''the dog ran'', ''the dog ran''],
               retriever = 3\<rparr>"]
  by (fastforce simp: stub_bm25s_def repeated_answer_def stored_metadata_def
        numeral_2_eq_2 All_less_Suc)

text \<open>
  When the texts of the corpus are pairwise distinct, the first position of a text is
  the position of its document: if the library hands back the texts of the documents
  \<open>ids\<close> it selected, each result carries its own text and, apart from the score, its own
  stored metadata.
\<close>

lemma retrieve_own_document_if_distinct:
  assumes "distinct (texts self)"
    and "\<forall>d\<in>set ids. d < length (texts self)"
    and "tokenize b (Text q) = Inr toks"
    and "retrieve b (retriever self) toks (texts self) (k self) =
           Inr (NDArray (length ids) [map (\<lambda>d. texts self ! d) ids],
                NdArray (NDArray (length srow) [srow]))"
  shows "\<exists>docs. fst (get_relevant_documents b self q) = Inr docs \<and> length docs = length ids \<and>
           (\<forall>j<length ids.
              page_content (docs ! j) = texts self ! (ids ! j) \<and>
              (\<forall>key. key \<noteq> ''score'' \<longrightarrow>
                 map_of (metadata (docs ! j)) key =
                 map_of (if ids ! j < length (metadatas self)
                         then metadatas self ! (ids ! j) else []) key))"
proof -
  let ?row = "map (\<lambda>d. texts self ! d) ids"
  let ?R = "NDArray (length ids) [?row]"
  let ?S = "NdArray (NDArray (length srow) [srow])"
  obtain ms' ds w e where l:
    "convert_loop (texts self) ?R ?S [0..<shape1 ?R] (metadatas self, [], []) = ((ms', ds, w), e)"
    by (metis prod_cases3 surj_pair)
  have l': "convert_loop (texts self) ?R ?S [0..<length ids] (metadatas self, [], []) = ((ms', ds, w), e)"
    using l by simp
  have nofail: "\<forall>i\<in>set [0..<length ids]. \<not> isl (item ?R 0 i) \<and> \<not> isl (score_at ?S i)"
    by (simp add: item_def score_at_row_not_fail)
  from loop_complete[OF l' nofail] have len: "length ds = length ids" by simp
  have each: "\<forall>j<length ids.
              page_content (ds ! j) = texts self ! (ids ! j) \<and>
              (\<forall>key. key \<noteq> ''score'' \<longrightarrow>
                 map_of (metadata (ds ! j)) key =
                 map_of (if ids ! j < length (metadatas self)
                         then metadatas self ! (ids ! j) else []) key)"
  proof (intro allI impI)
    fix j assume j: "j < length ids"
    then have a: "j < length ds" using len by simp
    have it: "item ?R 0 ([0..<length ids] ! j) = Inr (texts self ! (ids ! j))"
      using j by (simp add: item_def)
    from loop_docs[OF l' a] it
    have p: "page_content (ds ! j) = texts self ! (ids ! j)"
      and m: "\<forall>key. key \<noteq> ''score'' \<longrightarrow> map_of (metadata (ds ! j)) key =
              map_of (stored_metadata (texts self) (metadatas self) (texts self ! (ids ! j))) key"
      by auto
    have "ids ! j < length (texts self)" using assms(2) j by simp
    then have "list_index (texts self) (texts self ! (ids ! j)) = Some (ids ! j)"
      using list_index_nth_distinct[OF assms(1)] by simp
    then have "stored_metadata (texts self) (metadatas self) (texts self ! (ids ! j)) =
        (if ids ! j < length (metadatas self) then metadatas self ! (ids ! j) else [])"
      by (simp add: stored_metadata_def)
    with p m show "page_content (ds ! j) = texts self ! (ids ! j) \<and>
              (\<forall>key. key \<noteq> ''score'' \<longrightarrow>
                 map_of (metadata (ds ! j)) key =
                 map_of (if ids ! j < length (metadatas self)
                         then metadatas self ! (ids ! j) else []) key)"
      by simp
  qed
  from retrieve_unfold[OF assms(3,4) l] len each show ?thesis by blast
qed

text \<open>
  C2, at a failing input. One document with metadata \<open>{tag: a}\<close>; the query \<open>cat\<close>
  scores it 1/2. The call writes the score into the mapping that the retriever stores:
  after it the retriever holds \<open>{tag: a, score: 1/2}\<close>. On that retriever the query
  \<open>dog\<close>, scored 1/4, is answered with the score 1/2 of the first query.
\<close>

theorem retrieve_mutates_stored_metadata:
  "get_relevant_documents (stub_bm25s one_doc_answer)
         \<lparr>texts = [''cat dog''], metadatas = [[(''tag'', PStr ''a'')]],
          k = 1, corpus_tokens = [''cat dog''], retriever = 1\<rparr> ''cat'' =
     (Inr [\<lparr>page_content = ''cat dog'',
            metadata = [(''tag'', PStr ''a''), (''score'', PFloat (1 / 2))]\<rparr>],
      \<lparr>texts = [''cat dog''], metadatas = [[(''tag'', PStr ''a''), (''score'', PFloat (1 / 2))]],
          k = 1, corpus_tokens = [''cat dog''], retriever = 1\<rparr>, [])
   \<and> fst (get_relevant_documents (stub_bm25s one_doc_answer)
         \<lparr>texts = [''cat dog''], metadatas = [[(''tag'', PStr ''a''), (''score'', PFloat (1 / 2))]],
          k = 1, corpus_tokens = [''cat dog''], retriever = 1\<rparr> ''dog'') =
      Inr [\<lparr>page_content = ''cat dog'',
            metadata = [(''tag'', PStr ''a''), (''score'', PFloat (1 / 2))]\<rparr>]"
  by (simp add: run_defs one_doc_answer_def)

text \<open>
  C4, as the code has it. The claim fails: the score is written only
  \<open>if 'score' not in metadata\<close>. A stored mapping \<open>{score: 99}\<close> keeps its 99 when the
  query scores the document 1/2.
\<close>

theorem stored_score_kept_counterexample:
  "fst (get_relevant_documents (stub_bm25s one_doc_answer)
         \<lparr>texts = [''cat dog''], metadatas = [[(''score'', PFloat 99)]],
          k = 1, corpus_tokens = [''cat dog''], retriever = 1\<rparr> ''cat'') =
      Inr [\<lparr>page_content = ''cat dog'', metadata = [(''score'', PFloat 99)]\<rparr>]"
  by (simp add: run_defs one_doc_answer_def)

text \<open>
  C4, amended. When the library hands back one row of pairwise distinct texts and one
  row of scores, every result is returned, and the \<open>score\<close> field of a result that has
  a score in the row is: the score of the current query at its position, when the
  mapping stored for its text holds no \<open>score\<close> field at the start of the call; the
  stored value, when it holds one.
\<close>

theorem retrieve_score_set_if_absent:
  assumes "tokenize b (Text q) = Inr toks"
    and "retrieve b (retriever self) toks (texts self) (k self) =
           Inr (NDArray (length row) [row], NdArray (NDArray (length srow) [srow]))"
    and "distinct row"
  shows "\<exists>docs. fst (get_relevant_documents b self q) = Inr docs \<and> length docs = length row \<and>
           (\<forall>j<length row. j < length srow \<longrightarrow>
              map_of (metadata (docs ! j)) ''score'' =
                (case map_of (stored_metadata (texts self) (metadatas self) (row ! j)) ''score'' of
                   Some v \<Rightarrow> Some v
                 | None \<Rightarrow> Some (PFloat (srow ! j))))"
proof -
  let ?R = "NDArray (length row) [row]"
  let ?S = "NdArray (NDArray (length srow) [srow])"
  obtain ms' ds w e where l:
    "convert_loop (texts self) ?R ?S [0..<shape1 ?R] (metadatas self, [], []) = ((ms', ds, w), e)"
    by (metis prod_cases3 surj_pair)
  have l': "convert_loop (texts self) ?R ?S [0..<length row] (metadatas self, [], []) = ((ms', ds, w), e)"
    using l by simp
  have nofail: "\<forall>i\<in>set [0..<length row]. \<not> isl (item ?R 0 i) \<and> \<not> isl (score_at ?S i)"
    by (simp add: item_row score_at_row_not_fail)
  from loop_complete[OF l' nofail] have len: "length ds = length row" by simp
  have sc: "\<forall>j<length row. j < length srow \<longrightarrow>
              map_of (metadata (ds ! j)) ''score'' =
                (case map_of (stored_metadata (texts self) (metadatas self) (row ! j)) ''score'' of
                   Some v \<Rightarrow> Some v
                 | None \<Rightarrow> Some (PFloat (srow ! j)))"
  proof (intro allI impI)
    fix j assume j: "j < length row" "j < length srow"
    have a: "j < length ds" using j len by simp
    have b: "score_at ?S ([0..<length row] ! j) = Inr (Some (srow ! j))"
      using j by (simp add: score_at_row)
    have c: "item ?R 0 ([0..<length row] ! j) = Inr (row ! j)"
      using j by (simp add: item_row)
    show "map_of (metadata (ds ! j)) ''score'' =
                (case map_of (stored_metadata (texts self) (metadatas self) (row ! j)) ''score'' of
                   Some v \<Rightarrow> Some v
                 | None \<Rightarrow> Some (PFloat (srow ! j)))"
      using loop_score[OF l' distinct_items[OF assms(3)] a b c] .
  qed
  from retrieve_unfold[OF assms(1,2) l] len sc show ?thesis by blast
qed

theorem retrieve_score_set_if_absent_witness:
  "\<exists>docs. fst (get_relevant_documents (stub_bm25s one_doc_answer)
              \<lparr>texts = [''cat dog''], metadatas = [[(''tag'', PStr ''a'')]],
               k = 1, corpus_tokens = [''cat dog''], retriever = 1\<rparr> ''cat'') = Inr docs
      \<and> length docs = 1
      \<and> map_of (metadata (docs ! 0)) ''score'' = Some (PFloat (1 / 2))"
  using retrieve_score_set_if_absent [of "stub_bm25s one_doc_answer" "''cat''" "[''cat'']"
               "\<lparr>texts = [''cat dog''], metadatas = [[(''tag'', PStr ''a'')]],
                 k = 1, corpus_tokens = [''cat dog''], retriever = 1\<rparr>"
               "[''cat dog'']" "[1 / 2]"]
  by (simp add: stub_bm25s_def one_doc_answer_def stored_metadata_def)

text \<open>
  C5, as the code has it. The claim fails: \<open>bm25s.tokenize\<close> and \<open>BM25.retrieve\<close> are
  called before the \<open>try\<close>, so what they raise reaches the caller.
\<close>

theorem backend_exception_propagates_counterexample:
  "fst (get_relevant_documents (stub_bm25s raising_answer)
         \<lparr>texts = [''cat'', ''dog'', ''bird''], metadatas = [[], [], []],
          k = 4, corpus_tokens = [''cat'', ''dog'', ''bird''], retriever = 3\<rparr> ''cat'') =
      Inl (PyExn ''ValueError'' ''k of 4 is larger than the number of available scores'')"
  by (simp add: run_defs raising_answer_def)

text \<open>
  A run in which the conversion fails: the text handed back is not in the corpus and the
  scores have no row. The warning and the error are logged and the list is empty.
\<close>

lemma retrieve_run_unknown_text:
  "get_relevant_documents (stub_bm25s unknown_text_answer)
         \<lparr>texts = [''cat dog''], metadatas = [[(''tag'', PStr ''a'')]],
          k = 1, corpus_tokens = [''cat dog''], retriever = 1\<rparr> ''bird'' =
     (Inr [],
      \<lparr>texts = [''cat dog''], metadatas = [[(''tag'', PStr ''a'')]],
          k = 1, corpus_tokens = [''cat dog''], retriever = 1\<rparr>,
      [LogWarning ''BM25S: Document text not found in corpus: a bird...'',
       LogError ''BM25S: Error processing results: index 0 is out of bounds for axis 0 with size 0''])"
  by (simp add: run_defs unknown_text_answer_def)

text \<open>
  C5, amended. An exception of tokenizing the query or of \<open>BM25.retrieve\<close> leaves the
  method. Once both have returned, the method returns a list: an exception while the
  results are converted is caught, and on a well-formed results array the list is then
  empty.
\<close>

theorem retrieve_raises_only_before_try:
  "(case tokenize b (Text q) of
      Inl e \<Rightarrow> fst (get_relevant_documents b self q) = Inl e
    | Inr toks \<Rightarrow>
       (case retrieve b (retriever self) toks (texts self) (k self) of
          Inl e \<Rightarrow> fst (get_relevant_documents b self q) = Inl e
        | Inr (results, scores) \<Rightarrow>
            (\<exists>docs. fst (get_relevant_documents b self q) = Inr docs \<and>
               (wf_ndarray results \<longrightarrow>
                snd (convert_loop (texts self) results scores [0..<shape1 results]
                       (metadatas self, [], [])) \<noteq> None \<longrightarrow> docs = []))))"
proof (cases "tokenize b (Text q)")
  case (Inl e)
  then show ?thesis by (simp add: get_relevant_documents_def)
next
  case tok: (Inr toks)
  show ?thesis
  proof (cases "retrieve b (retriever self) toks (texts self) (k self)")
    case (Inl e)
    with tok show ?thesis by (simp add: get_relevant_documents_def)
  next
    case (Inr out)
    obtain R S where out: "out = (R, S)" by (cases out) auto
    obtain ms' ds w e where l:
      "convert_loop (texts self) R S [0..<shape1 R] (metadatas self, [], []) = ((ms', ds, w), e)"
      by (metis prod_cases3 surj_pair)
    have r: "retrieve b (retriever self) toks (texts self) (k self) = Inr (R, S)"
      using Inr out by simp
    have "wf_ndarray R \<longrightarrow> e \<noteq> None \<longrightarrow> ds = []"
      using loop_fail_empty[of "texts self" R S "metadatas self" ms' ds w] l by auto
    with retrieve_unfold[OF tok r l] tok r l show ?thesis by simp
  qed
qed

theorem retrieve_raises_only_before_try_witness:
  "fst (get_relevant_documents (stub_bm25s no_rows_answer)
         \<lparr>texts = [''cat dog''], metadatas = [[(''tag'', PStr ''a'')]],
          k = 1, corpus_tokens = [''cat dog''], retriever = 1\<rparr> ''cat'') = Inr []"
  using retrieve_raises_only_before_try [where b = "stub_bm25s no_rows_answer" and q = "''cat''" and self =
               "\<lparr>texts = [''cat dog''], metadatas = [[(''tag'', PStr ''a'')]],
                 k = 1, corpus_tokens = [''cat dog''], retriever = 1\<rparr>"]
  by (simp add: stub_bm25s_def no_rows_answer_def wf_ndarray_def convert_result_def item_def
        upt_conv_Cons)

text \<open>
  C6. Over the retrieval of the specification, a retriever with \<open>k > 0\<close> and a corpus of
  \<open>n\<close> texts returns at most \<open>min(k, n)\<close> documents for every query that tokenizes: the
  adapter makes at most one document for each column of the results.
\<close>

theorem retrieve_length_le_min_k_n:
  assumes "retrieve b = spec_retrieve scorer"
    and "tokenize b (Text q) = Inr toks"
    and "0 < k self"
  shows "\<exists>docs. fst (get_relevant_documents b self q) = Inr docs \<and>
            int (length docs) \<le> min (k self) (int (length (texts self)))"
proof -
  let ?ids = "select_top_k (\<lambda>d. scorer toks d (retriever self)) (length (texts self)) (k self)"
  let ?R = "NDArray (length ?ids) [map (\<lambda>d. texts self ! d) ?ids]"
  let ?S = "NdArray (NDArray (length ?ids) [map (\<lambda>d. scorer toks d (retriever self)) ?ids])"
  have r: "retrieve b (retriever self) toks (texts self) (k self) = Inr (?R, ?S)"
    using assms(1) by (simp add: spec_retrieve_def Let_def)
  obtain ms' ds w e where l:
    "convert_loop (texts self) ?R ?S [0..<shape1 ?R] (metadatas self, [], []) = ((ms', ds, w), e)"
    by (metis prod_cases3 surj_pair)
  from loop_shape[OF l] have "length ds \<le> length ?ids" by simp
  with length_select_top_k[OF assms(3), of "\<lambda>d. scorer toks d (retriever self)" "length (texts self)"]
  have "int (length ds) \<le> min (k self) (int (length (texts self)))" by linarith
  with retrieve_unfold[OF assms(2) r l] show ?thesis by simp
qed

theorem retrieve_length_le_min_k_n_witness:
  "\<exists>docs. fst (get_relevant_documents (spec_bm25s (\<lambda>toks d obj. if d = 1 then 1 else 0))
              \<lparr>texts = [''the cat sat'', ''the dog ran'', ''cats and dogs''],
               metadatas = [[], [], []],
               k = 2, corpus_tokens = [''the cat sat'', ''the dog ran'', ''cats and dogs''],
               retriever = 3\<rparr> ''dog'') = Inr docs
      \<and> int (length docs) \<le> 2"
  using retrieve_length_le_min_k_n [where b = "spec_bm25s (\<lambda>toks d obj. if d = 1 then 1 else 0)"
               and scorer = "\<lambda>toks d obj. if d = 1 then 1 else 0" and q = "''dog''"
               and toks = "[''dog'']" and self =
               "\<lparr>texts = [''the cat sat'', ''the dog ran'', ''cats and dogs''],
               metadatas = [[], [], []],
               k = 2, corpus_tokens = [''the cat sat'', ''the dog ran'', ''cats and dogs''],
               retriever = 3\<rparr>"]
  by (simp add: spec_bm25s_def stub_bm25s_def)

text \<open>A run over the retrieval of the specification: the two best of three documents.\<close>

lemma spec_retrieval_run:
  "fst (get_relevant_documents (spec_bm25s (\<lambda>toks d obj. if d = 1 then 1 else 0))
              \<lparr>texts = [''the cat sat'', ''the dog ran'', ''cats and dogs''],
               metadatas = [[], [], []],
               k = 2, corpus_tokens = [''the cat sat'', ''the dog ran'', ''cats and dogs''],
               retriever = 3\<rparr> ''dog'') = 
   Inr [\<lparr>page_content = ''the dog ran'', metadata = [(''score'', PFloat 1)]\<rparr>,
        \<lparr>page_content = ''the cat sat'', metadata = [(''score'', PFloat 0)]\<rparr>]"
  by (simp add: spec_bm25s_def run_defs spec_retrieve_def select_top_k_def)

text \<open>
  C7. The same query issued a second time, on the retriever as the first call left it,
  gives the same outcome: the same list of documents in the same order with the same
  metadata and scores (or the same exception), the same log, and a retriever that the
  second call leaves as it found it.
\<close>

theorem retrieve_idempotent:
  "get_relevant_documents b (fst (snd (get_relevant_documents b self q))) q =
   get_relevant_documents b self q"
proof (cases "tokenize b (Text q)")
  case (Inl e)
  then show ?thesis by (simp add: get_relevant_documents_def)
next
  case tok: (Inr toks)
  show ?thesis
  proof (cases "retrieve b (retriever self) toks (texts self) (k self)")
    case (Inl e)
    with tok show ?thesis by (simp add: get_relevant_documents_def)
  next
    case (Inr out)
    obtain results scores where out: "out = (results, scores)" by (cases out) auto
    obtain ms' ds w e where l:
      "convert_loop (texts self) results scores [0..<shape1 results] (metadatas self, [], [])
         = ((ms', ds, w), e)"
      by (metis prod_cases3 surj_pair)
    note l' = loop_idem[OF l]
    show ?thesis
      using tok Inr out l l'
      by (cases e) (simp_all add: get_relevant_documents_def)
  qed
qed

section \<open>Properties of \<open>DoclingApiLoader.load\<close>\<close>

text \<open>The definitions to unfold in a concrete run of the loader.\<close>

lemmas load_defs = load_def load_try_def send_request_def convert_ok_def response_content_def
  top_level_content_def error_msg_def dict_get_def get_mime_type_def mime_types_def
  after_last_def lower_def lower_char_def str_int_def str_nat.simps digit_char_def
  answering_def no_file_def report_loader_def quoted_def Let_def

text \<open>
  Runs of \<open>load\<close> on \<open>/tmp/Report.PDF\<close>: a conversion with metadata, a response
  without content, a content that is a number (the slice of line 101 raises), an HTTP
  error with a \<open>detail\<close>, and a file that cannot be opened.
\<close>

lemma load_run_markdown:
  "load (answering ok_markdown) report_loader =
     ([\<lparr>page_content = ''# Title'',
        metadata = [(KStr ''source'', PStr ''Report.PDF''),
                    (KStr ''content_type'', PStr ''application/pdf''),
                    (KStr ''pages'', PInt 3)]\<rparr>], [])"
  by (simp add: load_defs ok_markdown_def)

lemma load_run_empty:
  "load (answering ok_empty) report_loader =
     ([\<lparr>page_content = ''<No text content found>'',
        metadata = [(KStr ''source'', PStr ''Report.PDF''),
                    (KStr ''content_type'', PStr ''application/pdf'')]\<rparr>],
      [LogWarning ''No content found in Docling API response''])"
  by (simp add: load_defs ok_empty_def)

lemma load_run_number:
  "fst (load (answering ok_number) report_loader) =
     [\<lparr>page_content = ''Error during processing: 'int' object is not subscriptable'',
        metadata = []\<rparr>]"
  by (simp add: load_defs ok_number_def)

lemma load_run_500:
  "fst (load (answering http_500) report_loader) =
     [\<lparr>page_content = ''Error during processing: Error calling Docling API: 500 - Internal Server Error - boom'',
        metadata = []\<rparr>]"
  by (simp add: load_defs http_500_def)

lemma load_run_no_file:
  "fst (load no_file report_loader) =
     [\<lparr>page_content = ''Error during processing: No such file or directory'',
        metadata = []\<rparr>]"
  by (simp add: load_defs)

text \<open>The loader built by \<open>__init__\<close> has a scale between 1 and 4 and a URL without a
  slash at its end.\<close>

lemma loader_init_scale:
  "loader_init env u p x s = Inr self \<Longrightarrow>
     1 \<le> image_resolution_scale self \<and> image_resolution_scale self \<le> 4"
  by (auto simp: loader_init_def split: if_splits)

lemma rstrip_last: "rstrip c s \<noteq> [] \<Longrightarrow> last (rstrip c s) \<noteq> c"
proof -
  assume a: "rstrip c s \<noteq> []"
  then have "dropWhile (\<lambda>x. x = c) (rev s) \<noteq> []" by (simp add: rstrip_def)
  then have "hd (dropWhile (\<lambda>x. x = c) (rev s)) \<noteq> c" by (rule hd_dropWhile)
  then show ?thesis using a by (simp add: rstrip_def last_rev)
qed

text \<open>A document comes out of the branch of \<open>response.ok\<close> only with a string as content.\<close>

lemma new_Document_Inr: "new_Document c md = Inr d \<Longrightarrow> c = PStr (page_content d)"
  by (cases c) auto

lemma convert_ok_Inr:
  assumes "fst (convert_ok r file_name mime_type) = Inr d"
  shows "\<exists>result content. json r = Inr result \<and> response_content result = Inr content \<and>
           (content = PStr (page_content d) \<and> page_content d \<noteq> [] \<or>
            \<not> truthy content \<and> page_content d = ''<No text content found>'')"
  using assms
  by (auto simp: convert_ok_def Let_def split: sum.splits bool.splits if_splits prod.splits
      dest!: new_Document_Inr)

lemma error_document_prefix:
  "error_document \<lparr>page_content = ''Error during processing: '' @ m, metadata = md\<rparr>"
  by (simp add: error_document_def)

text \<open>
  The content of a response that is a dict, without the operations of the code: the
  value of the first of the four keys that the dict has, and when that is not true, the
  same inside \<open>result["document"]\<close>, if that is a dict.
\<close>

lemma dict_get_chain:
  "dict_get d ''content'' (dict_get d ''text'' (dict_get d ''markdown''
      (dict_get d ''md_content'' (PStr '''')))) =
   (case List.map_filter (map_of d) [''content'', ''text'', ''markdown'', ''md_content''] of
      v # _ \<Rightarrow> v | [] \<Rightarrow> PStr '''')"
  by (simp add: dict_get_def List.map_filter_simps split: option.splits)

lemma top_level_content_dict:
  "top_level_content (PDict kvs) =
     Inr (case List.map_filter (map_of kvs) [''content'', ''text'', ''markdown'', ''md_content''] of
            v # _ \<Rightarrow> v | [] \<Rightarrow> PStr '''')"
  by (auto simp: top_level_content_def List.map_filter_simps split: option.splits)

lemma response_content_dict:
  "response_content (PDict kvs) =
     Inr (let keys = [''content'', ''text'', ''markdown'', ''md_content''];
              top = (case List.map_filter (map_of kvs) keys of v # _ \<Rightarrow> v | [] \<Rightarrow> PStr '''')
          in if truthy top then top
             else (case map_of kvs ''document'' of
                     Some (PDict document) \<Rightarrow>
                       (case List.map_filter (map_of document) keys of
                          v # _ \<Rightarrow> v | [] \<Rightarrow> PStr '''')
                   | _ \<Rightarrow> top))"
  unfolding response_content_def top_level_content_dict Let_def
  by (auto simp: dict_get_chain split: option.splits pyval.splits)

lemma new_Document_not_str: "(\<forall>s. c \<noteq> PStr s) \<Longrightarrow> isl (new_Document c md)"
  by (cases c) auto

lemma convert_ok_dict_str:
  assumes "json r = Inr (PDict kvs)"
    and "response_content (PDict kvs) = Inr content"
    and "(if truthy content then content else PStr ''<No text content found>'') = PStr s"
  shows "(map_of kvs ''metadata'' = None \<longrightarrow>
            fst (convert_ok r file_name mime_type) =
              Inr \<lparr>page_content = s,
                   metadata = [(KStr ''source'', PStr file_name),
                               (KStr ''content_type'', PStr mime_type)]\<rparr>)
       \<and> (\<forall>m. map_of kvs ''metadata'' = Some (PDict m) \<longrightarrow>
            fst (convert_ok r file_name mime_type) =
              Inr \<lparr>page_content = s,
                   metadata = fold (\<lambda>(key, v). AList.update (KStr key) v) m
                                [(KStr ''source'', PStr file_name),
                                 (KStr ''content_type'', PStr mime_type)]\<rparr>)"
  using assms
  by (auto simp: convert_ok_def Let_def split: if_splits)

lemma convert_ok_dict_not_str:
  assumes "json r = Inr (PDict kvs)"
    and "response_content (PDict kvs) = Inr content"
    and "\<forall>s. (if truthy content then content else PStr ''<No text content found>'') \<noteq> PStr s"
  shows "isl (fst (convert_ok r file_name mime_type))"
proof -
  from assms(3) have t: "truthy content" and ns: "\<forall>s. content \<noteq> PStr s"
    by (auto split: if_splits)
  show ?thesis
  proof (cases "py_slice content")
    case (Inl e)
    with assms(1,2) t show ?thesis by (simp add: convert_ok_def)
  next
    case (Inr shown)
    have nd: "\<And>md. isl (new_Document content md)" using ns by (rule new_Document_not_str)
    show ?thesis
      using assms(1,2) t Inr nd
      by (auto simp: convert_ok_def Let_def split: sum.splits bool.splits option.splits)
  qed
qed

text \<open>
  The request fails when \<open>open\<close> or \<open>requests.post\<close> raises, and the message for an
  HTTP error begins with the status code and the reason.
\<close>

lemma send_request_open_raises:
  "open_rb env (file_path self) = Inl e \<Longrightarrow> send_request env self = Inl e"
  by (simp add: send_request_def Let_def)

lemma send_request_post_raises:
  assumes "open_rb env (file_path self) = Inr f"
    and "post env (url self @ ''/documents/convert'')
           [(''document'',
             (after_last CHR ''/'' (file_path self), f,
              get_mime_type (lower (after_last CHR ''.'' (after_last CHR ''/'' (file_path self))))))]
           [(''extract_tables_as_images'',
               if extract_tables_as_images self then ''true'' else ''false''),
            (''image_resolution_scale'', str_int (image_resolution_scale self))] = Inl e"
  shows "send_request env self = Inl e"
  using assms by (simp add: send_request_def Let_def)

lemma error_msg_begins:
  "\<exists>rest. error_msg str r =
     ''Error calling Docling API: '' @ str_int (status_code r) @ '' - '' @ reason r @ rest"
  by (auto simp: error_msg_def Let_def split: sum.splits bool.splits)

text \<open>
  C10. \<open>load\<close> never raises and returns a list of exactly one document, for every loader
  and every behaviour of the file system and of the server. When an exception leaves the
  body of the \<open>try\<close> (from the request, from \<open>response.json()\<close> or from anything
  after it), the document has the text \<open>Error during processing:\<close> followed by the text
  of the exception; when the response is not \<open>ok\<close>, it has \<open>Error during processing:\<close>
  followed by the message of the HTTP error. For a response that is \<open>ok\<close> and whose body
  is a JSON object, the content is the value of the first of the keys \<open>content\<close>,
  \<open>text\<close>, \<open>markdown\<close>, \<open>md_content\<close> that the object has or, when that is not true,
  the same inside its \<open>document\<close> object; a content that is not true is replaced by
  \<open><No text content found>\<close>. When the result is a string, the one document has it as
  its text, with the metadata \<open>source\<close> and \<open>content_type\<close> updated by the \<open>metadata\<close>
  object of the response, if there is one; when it is not a string, the document is an
  error document. For every response that is \<open>ok\<close> and converted without an exception,
  the text is the content found by the code, a non-empty string, or the placeholder.
\<close>

theorem load_returns_one_document:
  "\<exists>doc. fst (load env self) = [doc]
     \<and> (isl (fst (load_try env self)) \<longrightarrow> error_document doc)
     \<and> (\<forall>e. send_request env self = Inl e \<longrightarrow>
           doc = \<lparr>page_content = ''Error during processing: '' @ exn_msg e, metadata = []\<rparr>)
     \<and> (\<forall>r file_name mime_type.
          send_request env self = Inr (r, file_name, mime_type) \<and> \<not> ok r \<longrightarrow>
            error_document doc
            \<and> doc = \<lparr>page_content = ''Error during processing: '' @ error_msg (py_str env) r,
                       metadata = []\<rparr>)
     \<and> (\<forall>r file_name mime_type e.
          send_request env self = Inr (r, file_name, mime_type) \<and> ok r \<and> json r = Inl e \<longrightarrow>
            doc = \<lparr>page_content = ''Error during processing: '' @ exn_msg e, metadata = []\<rparr>)
     \<and> (\<forall>r file_name mime_type kvs.
          send_request env self = Inr (r, file_name, mime_type) \<and> ok r
            \<and> json r = Inr (PDict kvs) \<longrightarrow>
          (let keys = [''content'', ''text'', ''markdown'', ''md_content''];
               top = (case List.map_filter (map_of kvs) keys of v # _ \<Rightarrow> v | [] \<Rightarrow> PStr '''');
               content =
                 (if truthy top then top
                  else (case map_of kvs ''document'' of
                          Some (PDict document) \<Rightarrow>
                            (case List.map_filter (map_of document) keys of
                               v # _ \<Rightarrow> v | [] \<Rightarrow> PStr '''')
                        | _ \<Rightarrow> top));
               shown = (if truthy content then content else PStr ''<No text content found>'');
               base = [(KStr ''source'', PStr file_name), (KStr ''content_type'', PStr mime_type)]
           in (\<forall>s. shown = PStr s \<longrightarrow>
                 (map_of kvs ''metadata'' = None \<longrightarrow>
                    doc = \<lparr>page_content = s, metadata = base\<rparr>)
                 \<and> (\<forall>m. map_of kvs ''metadata'' = Some (PDict m) \<longrightarrow>
                       doc = \<lparr>page_content = s,
                              metadata = fold (\<lambda>(key, v). AList.update (KStr key) v) m base\<rparr>)
                 \<and> (page_content doc = s \<or> error_document doc))
              \<and> ((\<forall>s. shown \<noteq> PStr s) \<longrightarrow> error_document doc)))
     \<and> (\<forall>r file_name mime_type.
          send_request env self = Inr (r, file_name, mime_type) \<and> ok r
            \<and> \<not> isl (fst (load_try env self)) \<longrightarrow>
          (\<exists>result content. json r = Inr result \<and> response_content result = Inr content \<and>
             (content = PStr (page_content doc) \<and> page_content doc \<noteq> [] \<or>
              \<not> truthy content \<and> page_content doc = ''<No text content found>'')))"
proof -
  define errdoc :: "string \<Rightarrow> pykey Document"
    where "errdoc m = \<lparr>page_content = ''Error during processing: '' @ m, metadata = []\<rparr>" for m
  have err: "\<And>m. error_document (errdoc m)"
    unfolding errdoc_def by (rule error_document_prefix)
  define doc where "doc = (case fst (load_try env self) of Inr d \<Rightarrow> d | Inl e \<Rightarrow> errdoc (exn_msg e))"
  have one: "fst (load env self) = [doc]"
    by (cases "load_try env self"; cases "fst (load_try env self)")
       (auto simp: load_def doc_def errdoc_def)
  have raised: "isl (fst (load_try env self)) \<longrightarrow> error_document doc"
    by (cases "fst (load_try env self)") (auto simp: doc_def err)
  have req: "\<forall>e. send_request env self = Inl e \<longrightarrow>
           doc = \<lparr>page_content = ''Error during processing: '' @ exn_msg e, metadata = []\<rparr>"
    by (simp add: doc_def load_try_def errdoc_def)
  have http: "\<forall>r file_name mime_type.
          send_request env self = Inr (r, file_name, mime_type) \<and> \<not> ok r \<longrightarrow>
            error_document doc
            \<and> doc = \<lparr>page_content = ''Error during processing: '' @ error_msg (py_str env) r,
                       metadata = []\<rparr>"
  proof (intro allI impI)
    fix r file_name mime_type
    assume a: "send_request env self = Inr (r, file_name, mime_type) \<and> \<not> ok r"
    then have "fst (load_try env self) = Inr (errdoc (error_msg (py_str env) r))"
      by (simp add: load_try_def Let_def errdoc_def)
    then have "doc = errdoc (error_msg (py_str env) r)" by (simp add: doc_def)
    then show "error_document doc
            \<and> doc = \<lparr>page_content = ''Error during processing: '' @ error_msg (py_str env) r,
                       metadata = []\<rparr>"
      using err[of "error_msg (py_str env) r"] by (simp add: errdoc_def)
  qed
  have jsonraise: "\<forall>r file_name mime_type e.
          send_request env self = Inr (r, file_name, mime_type) \<and> ok r \<and> json r = Inl e \<longrightarrow>
            doc = \<lparr>page_content = ''Error during processing: '' @ exn_msg e, metadata = []\<rparr>"
    by (simp add: doc_def load_try_def convert_ok_def errdoc_def)
  have dict: "\<forall>r file_name mime_type kvs.
          send_request env self = Inr (r, file_name, mime_type) \<and> ok r
            \<and> json r = Inr (PDict kvs) \<longrightarrow>
          (let keys = [''content'', ''text'', ''markdown'', ''md_content''];
               top = (case List.map_filter (map_of kvs) keys of v # _ \<Rightarrow> v | [] \<Rightarrow> PStr '''');
               content =
                 (if truthy top then top
                  else (case map_of kvs ''document'' of
                          Some (PDict document) \<Rightarrow>
                            (case List.map_filter (map_of document) keys of
                               v # _ \<Rightarrow> v | [] \<Rightarrow> PStr '''')
                        | _ \<Rightarrow> top));
               shown = (if truthy content then content else PStr ''<No text content found>'');
               base = [(KStr ''source'', PStr file_name), (KStr ''content_type'', PStr mime_type)]
           in (\<forall>s. shown = PStr s \<longrightarrow>
                 (map_of kvs ''metadata'' = None \<longrightarrow>
                    doc = \<lparr>page_content = s, metadata = base\<rparr>)
                 \<and> (\<forall>m. map_of kvs ''metadata'' = Some (PDict m) \<longrightarrow>
                       doc = \<lparr>page_content = s,
                              metadata = fold (\<lambda>(key, v). AList.update (KStr key) v) m base\<rparr>)
                 \<and> (page_content doc = s \<or> error_document doc))
              \<and> ((\<forall>s. shown \<noteq> PStr s) \<longrightarrow> error_document doc))"
  proof (intro allI impI)
    fix r file_name mime_type kvs
    assume a: "send_request env self = Inr (r, file_name, mime_type) \<and> ok r
            \<and> json r = Inr (PDict kvs)"
    then have lt: "fst (load_try env self) = fst (convert_ok r file_name mime_type)"
      by (simp add: load_try_def)
    from a have j: "json r = Inr (PDict kvs)" by simp
    obtain content where rc: "response_content (PDict kvs) = Inr content"
      and c: "content =
          (let keys = [''content'', ''text'', ''markdown'', ''md_content''];
              top = (case List.map_filter (map_of kvs) keys of v # _ \<Rightarrow> v | [] \<Rightarrow> PStr '''')
          in if truthy top then top
             else (case map_of kvs ''document'' of
                     Some (PDict document) \<Rightarrow>
                       (case List.map_filter (map_of document) keys of
                          v # _ \<Rightarrow> v | [] \<Rightarrow> PStr '''')
                   | _ \<Rightarrow> top))"
      using response_content_dict[of kvs] by simp
    let ?shown = "if truthy content then content else PStr ''<No text content found>''"
    have str: "\<forall>s. ?shown = PStr s \<longrightarrow>
                 (map_of kvs ''metadata'' = None \<longrightarrow>
                    doc = \<lparr>page_content = s,
                           metadata = [(KStr ''source'', PStr file_name),
                                       (KStr ''content_type'', PStr mime_type)]\<rparr>)
                 \<and> (\<forall>m. map_of kvs ''metadata'' = Some (PDict m) \<longrightarrow>
                       doc = \<lparr>page_content = s,
                              metadata = fold (\<lambda>(key, v). AList.update (KStr key) v) m
                                 [(KStr ''source'', PStr file_name),
                                  (KStr ''content_type'', PStr mime_type)]\<rparr>)
                 \<and> (page_content doc = s \<or> error_document doc)"
    proof (intro allI impI)
      fix s assume s: "?shown = PStr s"
      note k = convert_ok_dict_str[OF j rc s, of file_name mime_type]
      have third: "page_content doc = s \<or> error_document doc"
      proof (cases "fst (load_try env self)")
        case (Inl e)
        then show ?thesis by (simp add: doc_def err)
      next
        case (Inr d)
        then have d: "doc = d" by (simp add: doc_def)
        from Inr lt have "fst (convert_ok r file_name mime_type) = Inr d" by simp
        from convert_ok_Inr[OF this] j rc
        have "content = PStr (page_content d) \<and> page_content d \<noteq> [] \<or>
              \<not> truthy content \<and> page_content d = ''<No text content found>''"
          by auto
        with s d show ?thesis by (auto split: if_splits)
      qed
      show "(map_of kvs ''metadata'' = None \<longrightarrow>
                    doc = \<lparr>page_content = s,
                           metadata = [(KStr ''source'', PStr file_name),
                                       (KStr ''content_type'', PStr mime_type)]\<rparr>)
                 \<and> (\<forall>m. map_of kvs ''metadata'' = Some (PDict m) \<longrightarrow>
                       doc = \<lparr>page_content = s,
                              metadata = fold (\<lambda>(key, v). AList.update (KStr key) v) m
                                 [(KStr ''source'', PStr file_name),
                                  (KStr ''content_type'', PStr mime_type)]\<rparr>)
                 \<and> (page_content doc = s \<or> error_document doc)"
        using k third lt by (auto simp: doc_def)
    qed
    have nstr: "(\<forall>s. ?shown \<noteq> PStr s) \<longrightarrow> error_document doc"
    proof
      assume n: "\<forall>s. ?shown \<noteq> PStr s"
      from convert_ok_dict_not_str[OF j rc n, of file_name mime_type] lt
      have "isl (fst (load_try env self))" by simp
      with raised show "error_document doc" by simp
    qed
    show "(let keys = [''content'', ''text'', ''markdown'', ''md_content''];
               top = (case List.map_filter (map_of kvs) keys of v # _ \<Rightarrow> v | [] \<Rightarrow> PStr '''');
               content =
                 (if truthy top then top
                  else (case map_of kvs ''document'' of
                          Some (PDict document) \<Rightarrow>
                            (case List.map_filter (map_of document) keys of
                               v # _ \<Rightarrow> v | [] \<Rightarrow> PStr '''')
                        | _ \<Rightarrow> top));
               shown = (if truthy content then content else PStr ''<No text content found>'');
               base = [(KStr ''source'', PStr file_name), (KStr ''content_type'', PStr mime_type)]
           in (\<forall>s. shown = PStr s \<longrightarrow>
                 (map_of kvs ''metadata'' = None \<longrightarrow>
                    doc = \<lparr>page_content = s, metadata = base\<rparr>)
                 \<and> (\<forall>m. map_of kvs ''metadata'' = Some (PDict m) \<longrightarrow>
                       doc = \<lparr>page_content = s,
                              metadata = fold (\<lambda>(key, v). AList.update (KStr key) v) m base\<rparr>)
                 \<and> (page_content doc = s \<or> error_document doc))
              \<and> ((\<forall>s. shown \<noteq> PStr s) \<longrightarrow> error_document doc))"
      using str nstr unfolding c Let_def by blast
  qed
  have succ: "\<forall>r file_name mime_type.
          send_request env self = Inr (r, file_name, mime_type) \<and> ok r
            \<and> \<not> isl (fst (load_try env self)) \<longrightarrow>
          (\<exists>result content. json r = Inr result \<and> response_content result = Inr content \<and>
             (content = PStr (page_content doc) \<and> page_content doc \<noteq> [] \<or>
              \<not> truthy content \<and> page_content doc = ''<No text content found>''))"
  proof (intro allI impI)
    fix r file_name mime_type
    assume a: "send_request env self = Inr (r, file_name, mime_type) \<and> ok r
            \<and> \<not> isl (fst (load_try env self))"
    then obtain d where d: "fst (load_try env self) = Inr d"
      by (cases "fst (load_try env self)") auto
    with a have "fst (convert_ok r file_name mime_type) = Inr d"
      by (simp add: load_try_def)
    from convert_ok_Inr[OF this] d
    show "\<exists>result content. json r = Inr result \<and> response_content result = Inr content \<and>
             (content = PStr (page_content doc) \<and> page_content doc \<noteq> [] \<or>
              \<not> truthy content \<and> page_content doc = ''<No text content found>'')"
      by (simp add: doc_def)
  qed
  from one raised req http jsonraise dict succ show ?thesis by blast
qed

lemma send_request_answering:
  "send_request (answering r) report_loader = Inr (r, ''Report.PDF'', ''application/pdf'')"
  by (simp add: send_request_def answering_def report_loader_def Let_def after_last_def
        lower_def lower_char_def get_mime_type_def mime_types_def)

theorem load_returns_one_document_witness:
  "(\<exists>doc. fst (load no_file report_loader) = [doc] \<and> error_document doc)
   \<and> (\<exists>doc. fst (load (answering http_500) report_loader) = [doc] \<and> error_document doc)
   \<and> (\<exists>doc. fst (load (answering ok_number) report_loader) = [doc] \<and> error_document doc)
   \<and> fst (load (answering ok_markdown) report_loader) =
        [\<lparr>page_content = ''# Title'',
          metadata = [(KStr ''source'', PStr ''Report.PDF''),
                      (KStr ''content_type'', PStr ''application/pdf''),
                      (KStr ''pages'', PInt 3)]\<rparr>]
   \<and> fst (load (answering ok_nested) report_loader) =
        [\<lparr>page_content = ''nested text'',
          metadata = [(KStr ''source'', PStr ''Report.PDF''),
                      (KStr ''content_type'', PStr ''application/pdf'')]\<rparr>]
   \<and> fst (load (answering ok_empty) report_loader) =
        [\<lparr>page_content = ''<No text content found>'',
          metadata = [(KStr ''source'', PStr ''Report.PDF''),
                      (KStr ''content_type'', PStr ''application/pdf'')]\<rparr>]"
proof -
  have s1: "isl (fst (load_try no_file report_loader))"
    by (simp add: load_try_def send_request_def no_file_def report_loader_def Let_def)
  have a: "(\<exists>doc. fst (load no_file report_loader) = [doc] \<and> error_document doc)"
    using load_returns_one_document [of no_file report_loader] s1 by blast
  have b: "(\<exists>doc. fst (load (answering http_500) report_loader) = [doc] \<and> error_document doc)"
    using load_returns_one_document [of "answering http_500" report_loader] send_request_answering[of http_500]
    by (auto simp: http_500_def)
  have c: "(\<exists>doc. fst (load (answering ok_number) report_loader) = [doc] \<and> error_document doc)"
    using load_returns_one_document [of "answering ok_number" report_loader] send_request_answering[of ok_number]
    by (auto simp: ok_number_def List.map_filter_simps Let_def)
  have d: "fst (load (answering ok_markdown) report_loader) =
        [\<lparr>page_content = ''# Title'',
          metadata = [(KStr ''source'', PStr ''Report.PDF''),
                      (KStr ''content_type'', PStr ''application/pdf''),
                      (KStr ''pages'', PInt 3)]\<rparr>]"
    using load_returns_one_document [of "answering ok_markdown" report_loader] send_request_answering[of ok_markdown]
    by (auto simp: ok_markdown_def List.map_filter_simps Let_def)
  have e: "fst (load (answering ok_nested) report_loader) =
        [\<lparr>page_content = ''nested text'',
          metadata = [(KStr ''source'', PStr ''Report.PDF''),
                      (KStr ''content_type'', PStr ''application/pdf'')]\<rparr>]"
    using load_returns_one_document [of "answering ok_nested" report_loader] send_request_answering[of ok_nested]
    by (auto simp: ok_nested_def List.map_filter_simps Let_def)
  have f: "fst (load (answering ok_empty) report_loader) =
        [\<lparr>page_content = ''<No text content found>'',
          metadata = [(KStr ''source'', PStr ''Report.PDF''),
                      (KStr ''content_type'', PStr ''application/pdf'')]\<rparr>]"
    using load_returns_one_document [of "answering ok_empty" report_loader] send_request_answering[of ok_empty]
    by (auto simp: ok_empty_def List.map_filter_simps Let_def)
  from a b c d e f show ?thesis by blast
qed

end
